theory Spec2Isabelle
  imports Complex_Main "HOL-Library.Log_Nat" "HOL-Library.Word"
begin

chapter \<open>dev-toolkit: string, date and number utilities and two React hooks\<close>

section \<open>JavaScript values shared by the modules\<close>

text \<open>
  A string is a sequence of 16-bit code units. \<open>js\<close> writes one from ASCII text.
\<close>

type_synonym code_unit = "16 word"

type_synonym jsstring = "code_unit list"

definition js :: "string \<Rightarrow> jsstring" where
  "js s = map of_char s"

text \<open>
  Exceptions are values. A function of the source that can throw returns
  \<open>js_error + 'a\<close>, with \<open>Inl\<close> the exception. \<open>Error msg\<close> is
  \<^verbatim>\<open>new Error(msg)\<close>; the other constructors are the built-in exception
  classes the platform raises.
\<close>

datatype js_error =
    Error jsstring
  | TypeError
  | RangeError
  | SyntaxError
  | SecurityError
  | QuotaExceededError

text \<open>
  A JavaScript \<^verbatim>\<open>number\<close>. Finite values are kept as reals; the three non-finite
  values are constructors of their own.
\<close>

datatype jsnumber = NaN | PosInfinity | NegInfinity | Finite real

text \<open>The relational operator \<^verbatim>\<open>a > b\<close> on numbers: false as soon as one side is NaN.\<close>

fun js_gt :: "jsnumber \<Rightarrow> jsnumber \<Rightarrow> bool" where
  "js_gt NaN _ = False"
| "js_gt _ NaN = False"
| "js_gt PosInfinity PosInfinity = False"
| "js_gt PosInfinity _ = True"
| "js_gt NegInfinity _ = False"
| "js_gt (Finite a) PosInfinity = False"
| "js_gt (Finite a) NegInfinity = True"
| "js_gt (Finite a) (Finite b) = (b < a)"


section \<open>typescript-utils/string-utils.ts\<close>

text \<open>
  The upper-casing of the platform (\<^verbatim>\<open>String.prototype.toUpperCase\<close>) is a parameter
  of every function that calls it: it maps strings to strings and may change the
  length.
\<close>

text \<open>
  The code units that \<^verbatim>\<open>String.prototype.trim\<close> strips, the language's white space
  and line terminators: tab, line feed, vertical tab, form feed, carriage return,
  space, no-break space, the Unicode space separators, line and paragraph separator,
  and the byte order mark.
\<close>

definition isWhiteSpace :: "code_unit \<Rightarrow> bool" where
  "isWhiteSpace c =
     (c \<in> set [0x09, 0x0A, 0x0B, 0x0C, 0x0D, 0x20, 0xA0, 0x1680,
                0x2000, 0x2001, 0x2002, 0x2003, 0x2004, 0x2005, 0x2006, 0x2007, 0x2008, 0x2009, 0x200A,
                0x2028, 0x2029, 0x202F, 0x205F, 0x3000, 0xFEFF])"

definition trim :: "jsstring \<Rightarrow> jsstring" where
  "trim s = rev (dropWhile isWhiteSpace (rev (dropWhile isWhiteSpace s)))"

text \<open>
  \<^verbatim>\<open>s.split(sep)\<close> for a separator of one code unit: the pieces between the
  separators, empty pieces included; the empty string gives one empty piece.
\<close>

fun split_str :: "code_unit \<Rightarrow> jsstring \<Rightarrow> jsstring list" where
  "split_str sep [] = [[]]"
| "split_str sep (c # cs) =
     (if c = sep then [] # split_str sep cs
      else (case split_str sep cs of
              [] \<Rightarrow> [[c]]
            | w # ws \<Rightarrow> (c # w) # ws))"

text \<open>\<^verbatim>\<open>xs.join(sep)\<close>.\<close>

fun join :: "jsstring \<Rightarrow> jsstring list \<Rightarrow> jsstring" where
  "join sep [] = []"
| "join sep [w] = w"
| "join sep (w # ws) = w @ sep @ join sep ws"

text \<open>\<^verbatim>\<open>s.charAt(0)\<close>: the first code unit as a string, the empty string when there is none.\<close>

definition charAt0 :: "jsstring \<Rightarrow> jsstring" where
  "charAt0 s = take 1 s"

text \<open>\<^verbatim>\<open>s.slice(1)\<close>.\<close>

definition slice1 :: "jsstring \<Rightarrow> jsstring" where
  "slice1 s = drop 1 s"

text \<open>
  \<^verbatim>\<open>if (!slug.trim()) return slug;
  return slug.split("-").map((word) => word.charAt(0).toUpperCase() + word.slice(1)).join(" ");\<close>
\<close>

definition slugToString :: "(jsstring \<Rightarrow> jsstring) \<Rightarrow> jsstring \<Rightarrow> jsstring" where
  "slugToString toUpperCase slug =
     (if trim slug = [] then slug
      else join (js '' '') (map (\<lambda>word. toUpperCase (charAt0 word) @ slice1 word) (split_str 0x2D slug)))"

text \<open>
  \<^verbatim>\<open>if (!str) return str;
  return str.charAt(0).toUpperCase() + str.slice(1);\<close>
\<close>

definition capitalizeFirstLetter :: "(jsstring \<Rightarrow> jsstring) \<Rightarrow> jsstring \<Rightarrow> jsstring" where
  "capitalizeFirstLetter toUpperCase str =
     (if str = [] then str else toUpperCase (charAt0 str) @ slice1 str)"

text \<open>
  \<^verbatim>\<open>const splitedName = fullName.trim().split(" ").filter(Boolean);\<close>
  \<^verbatim>\<open>filter(Boolean)\<close> keeps the non-empty pieces.

  In the \<^verbatim>\<open>else\<close> branch \<^verbatim>\<open>splitedName[0]\<close> is \<^verbatim>\<open>undefined\<close> when the list
  is empty, and \<^verbatim>\<open>undefined.charAt\<close> throws a TypeError.
\<close>

definition nameInitials :: "(jsstring \<Rightarrow> jsstring) \<Rightarrow> jsstring \<Rightarrow> js_error + jsstring" where
  "nameInitials toUpperCase fullName =
     (let splitedName = filter (\<lambda>w. w \<noteq> []) (split_str 0x20 (trim fullName)) in
      if length splitedName > 1 then
        (let firstName = splitedName ! 0;
             lastName = splitedName ! (length splitedName - 1)
         in Inr (toUpperCase (charAt0 firstName) @ toUpperCase (charAt0 lastName)))
      else
        (case splitedName of
           [] \<Rightarrow> Inl TypeError
         | w # _ \<Rightarrow> Inr (toUpperCase (charAt0 w))))"

text \<open>
  An instance of the platform's upper-casing, exact on ASCII text: the letters
  \<open>a\<close> to \<open>z\<close> move to \<open>A\<close> to \<open>Z\<close>, every other code unit stays.
\<close>

definition ascii_upper_char :: "code_unit \<Rightarrow> code_unit" where
  "ascii_upper_char c =
     (case map_of (zip (js ''abcdefghijklmnopqrstuvwxyz'') (js ''ABCDEFGHIJKLMNOPQRSTUVWXYZ'')) c of
        None \<Rightarrow> c
      | Some u \<Rightarrow> u)"

definition ascii_toUpperCase :: "jsstring \<Rightarrow> jsstring" where
  "ascii_toUpperCase s = map ascii_upper_char s"

subsection \<open>The behaviour of \<open>nameInitials\<close> in words\<close>

text \<open>
  The segments of a text for a class of separators: the maximal runs of code units
  that are not separators, from left to right. No segment is empty.
\<close>

function segments :: "(code_unit \<Rightarrow> bool) \<Rightarrow> jsstring \<Rightarrow> jsstring list" where
  "segments sep [] = []"
| "segments sep (c # cs) =
     (if sep c then segments sep cs
      else (c # takeWhile (\<lambda>x. \<not> sep x) cs) # segments sep (dropWhile (\<lambda>x. \<not> sep x) cs))"
  by pat_completeness auto
termination
  by (relation "measure (\<lambda>(sep, s). length s)") (auto simp: less_Suc_eq_le length_dropWhile_le)

text \<open>
  The initials of a list of segments: none for no segment, the upper-cased first code
  unit of the only segment, or those of the first and of the last segment.
\<close>

fun initials_of :: "(jsstring \<Rightarrow> jsstring) \<Rightarrow> jsstring list \<Rightarrow> jsstring option" where
  "initials_of toUpperCase [] = None"
| "initials_of toUpperCase [w] = Some (toUpperCase (take 1 w))"
| "initials_of toUpperCase (w # ws) = Some (toUpperCase (take 1 w) @ toUpperCase (take 1 (last ws)))"



section \<open>typescript-utils/date-utils.ts\<close>

text \<open>
  A \<^verbatim>\<open>Date\<close> object holds a time value: a whole number of milliseconds since the
  epoch, or NaN (an invalid date), here \<open>None\<close>. \<^verbatim>\<open>getTime()\<close> reads it, and
  \<^verbatim>\<open>isNaN(d.getTime())\<close> is \<open>d = None\<close>.
\<close>

type_synonym Date = "int option"

text \<open>The argument type \<^verbatim>\<open>Date | string | number\<close>.\<close>

datatype date_input = DateObject Date | DateString jsstring | DateNumber jsnumber

text \<open>\<^verbatim>\<open>Intl.DateTimeFormatOptions\<close>, with the fields this module sets.\<close>

record DateTimeFormatOptions =
  year :: "jsstring option"
  month :: "jsstring option"
  day :: "jsstring option"
  hour :: "jsstring option"
  minute :: "jsstring option"
  second :: "jsstring option"
  timeZone :: "jsstring option"
  hour12 :: "bool option"

text \<open>
  What the module takes from the platform: the date parser behind \<^verbatim>\<open>new Date(string)\<close>
  (NaN for a text it cannot read) and the formatting methods of a valid date. The
  locale-aware methods throw a RangeError for a locale or an option they reject, here
  \<open>None\<close>; \<^verbatim>\<open>toISOString\<close> of a valid date always returns.
\<close>

record date_platform =
  Date_parse :: "jsstring \<Rightarrow> jsnumber"
  toLocaleDateString :: "int \<Rightarrow> jsstring \<Rightarrow> DateTimeFormatOptions \<Rightarrow> jsstring option"
  toLocaleTimeString :: "int \<Rightarrow> jsstring \<Rightarrow> DateTimeFormatOptions \<Rightarrow> jsstring option"
  toLocaleString :: "int \<Rightarrow> jsstring \<Rightarrow> DateTimeFormatOptions \<Rightarrow> jsstring option"
  toISOString :: "int \<Rightarrow> jsstring"

text \<open>
  The language's TimeClip: NaN for a non-finite number and for one beyond
  8.64e15 milliseconds from the epoch, otherwise the number truncated towards zero.
\<close>

definition TimeClip :: "jsnumber \<Rightarrow> Date" where
  "TimeClip t =
     (case t of
        Finite r \<Rightarrow>
          if \<bar>r\<bar> > 8640000000000000 then None
          else Some (if 0 \<le> r then \<lfloor>r\<rfloor> else \<lceil>r\<rceil>)
      | _ \<Rightarrow> None)"

text \<open>\<^verbatim>\<open>new Date(value)\<close>.\<close>

definition new_Date :: "date_platform \<Rightarrow> date_input \<Rightarrow> Date" where
  "new_Date P v =
     (case v of
        DateObject d \<Rightarrow> d
      | DateString s \<Rightarrow> TimeClip (Date_parse P s)
      | DateNumber n \<Rightarrow> TimeClip n)"

text \<open>A parameter with a default value: the default stands in for an absent argument.\<close>

definition with_default :: "'a \<Rightarrow> 'a option \<Rightarrow> 'a" where
  "with_default d x = (case x of None \<Rightarrow> d | Some v \<Rightarrow> v)"

definition no_options :: DateTimeFormatOptions where
  "no_options = \<lparr>year = None, month = None, day = None, hour = None, minute = None,
                  second = None, timeZone = None, hour12 = None\<rparr>"

text \<open>The result of a locale-aware formatting method, its RangeError as an exception.\<close>

definition formatted :: "jsstring option \<Rightarrow> js_error + jsstring" where
  "formatted r = (case r of None \<Rightarrow> Inl RangeError | Some s \<Rightarrow> Inr s)"

text \<open>
  \<^verbatim>\<open>const d = new Date(dateInput);
  if (isNaN(d.getTime())) { throw new Error("Invalid date input"); }
  return d.toLocaleDateString(locale, options);\<close>
\<close>

definition formatDate ::
  "date_platform \<Rightarrow> date_input \<Rightarrow> jsstring option \<Rightarrow> DateTimeFormatOptions option \<Rightarrow> js_error + jsstring" where
  "formatDate P dateInput locale options =
     (let locale = with_default (js ''en-IN'') locale;
          options = with_default
            (no_options\<lparr>year := Some (js ''numeric''), month := Some (js ''long''), day := Some (js ''2-digit'')\<rparr>) options
      in case new_Date P dateInput of
           None \<Rightarrow> Inl (Error (js ''Invalid date input''))
         | Some t \<Rightarrow> formatted (toLocaleDateString P t locale options))"

definition formatTime ::
  "date_platform \<Rightarrow> date_input \<Rightarrow> DateTimeFormatOptions option \<Rightarrow> jsstring option \<Rightarrow> js_error + jsstring" where
  "formatTime P date options locale =
     (let options = with_default (no_options\<lparr>hour := Some (js ''2-digit''), minute := Some (js ''2-digit'')\<rparr>) options;
          locale = with_default (js ''en-IN'') locale
      in case new_Date P date of
           None \<Rightarrow> Inl (Error (js ''Invalid date input''))
         | Some t \<Rightarrow> formatted (toLocaleTimeString P t locale options))"

definition formatDateTimeToLocale ::
  "date_platform \<Rightarrow> date_input \<Rightarrow> jsstring option \<Rightarrow> DateTimeFormatOptions option \<Rightarrow> js_error + jsstring" where
  "formatDateTimeToLocale P dateInput locale options =
     (let locale = with_default (js ''en-IN'') locale;
          options = with_default
            (no_options\<lparr>year := Some (js ''numeric''), month := Some (js ''long''), day := Some (js ''numeric''),
                         hour := Some (js ''2-digit''), minute := Some (js ''2-digit''), second := Some (js ''2-digit'')\<rparr>)
            options
      in case new_Date P dateInput of
           None \<Rightarrow> Inl (Error (js ''Invalid date input''))
         | Some t \<Rightarrow> formatted (toLocaleString P t locale options))"

datatype utc_format = Iso | Readable

definition constructUTCFormat ::
  "date_platform \<Rightarrow> date_input \<Rightarrow> utc_format option \<Rightarrow> jsstring option \<Rightarrow> js_error + jsstring" where
  "constructUTCFormat P dateInput format locale =
     (let format = with_default Iso format;
          locale = with_default (js ''en-IN'') locale
      in case new_Date P dateInput of
           None \<Rightarrow> Inl (Error (js ''Invalid date input''))
         | Some t \<Rightarrow>
             if format = Iso then Inr (toISOString P t)
             else formatted (toLocaleString P t locale
                    (no_options\<lparr>year := Some (js ''numeric''), month := Some (js ''short''), day := Some (js ''2-digit''),
                                 hour := Some (js ''2-digit''), minute := Some (js ''2-digit''), second := Some (js ''2-digit''),
                                 timeZone := Some (js ''UTC''), hour12 := Some False\<rparr>)))"

text \<open>
  Numbers are IEEE doubles. A whole number up to \<open>2 ^ 53\<close> in absolute value is a double;
  beyond that a whole number is rounded to 53 significant bits, a tie going to the even
  significand. \<open>round_to_double n\<close> is the double nearest to the whole number \<open>n\<close>
  (below the overflow threshold of doubles, which no difference of time values reaches).
\<close>

definition round_to_double :: "int \<Rightarrow> int" where
  "round_to_double n =
     (let m = \<bar>n\<bar> in
      if m \<le> 2 ^ 53 then n
      else
        (let e = floorlog 2 (nat m) - 53;
             u = 2 ^ e;
             q = m div u;
             r = m mod u;
             q' = (if 2 * r < u \<or> (2 * r = u \<and> even q) then q else q + 1)
         in sgn n * (q' * u)))"

text \<open>\<^verbatim>\<open>a - b\<close> on two whole-valued numbers.\<close>

definition number_sub :: "int \<Rightarrow> int \<Rightarrow> int" where
  "number_sub a b = round_to_double (a - b)"

record time_difference =
  days :: int
  hours :: int
  minutes :: int
  seconds :: int

text \<open>
  \<^verbatim>\<open>if (!(date1 instanceof Date)) date1 = new Date(date1);\<close>
\<close>

definition as_Date :: "date_platform \<Rightarrow> date_input \<Rightarrow> Date" where
  "as_Date P v = (case v of DateObject d \<Rightarrow> d | _ \<Rightarrow> new_Date P v)"

text \<open>
  \<^verbatim>\<open>const diff = Math.abs(date1.getTime() - date2.getTime());
  const days = Math.floor(diff / (1000 * 60 * 60 * 24));
  const hours = Math.floor((diff % (1000 * 60 * 60 * 24)) / (1000 * 60 * 60));
  const minutes = Math.floor((diff % (1000 * 60 * 60)) / (1000 * 60));
  const seconds = Math.floor((diff % (1000 * 60)) / 1000);\<close>
  \<open>diff\<close> is a whole number that is not negative, so \<^verbatim>\<open>%\<close> is \<open>mod\<close> and the floor of
  the quotient is \<open>div\<close>: for a difference of two time values the double quotient
  by one of these divisors never rounds up to the next whole number.
\<close>

definition timeDifference :: "date_platform \<Rightarrow> date_input \<Rightarrow> date_input \<Rightarrow> js_error + time_difference" where
  "timeDifference P date1 date2 =
     (case (as_Date P date1, as_Date P date2) of
        (Some t1, Some t2) \<Rightarrow>
          (let diff = \<bar>number_sub t1 t2\<bar>;
               days = diff div (1000 * 60 * 60 * 24);
               hours = (diff mod (1000 * 60 * 60 * 24)) div (1000 * 60 * 60);
               minutes = (diff mod (1000 * 60 * 60)) div (1000 * 60);
               seconds = (diff mod (1000 * 60)) div 1000
           in Inr \<lparr>days = days, hours = hours, minutes = minutes, seconds = seconds\<rparr>)
      | _ \<Rightarrow> Inl (Error (js ''Invalid date input'')))"

text \<open>
  What the claim about \<open>timeDifference\<close> asks of a result for a duration of \<open>ms\<close>
  milliseconds: no component is negative, each is below the size of the next larger
  unit, and together they make up the whole seconds of the duration.
\<close>

definition decomposes :: "int \<Rightarrow> time_difference \<Rightarrow> bool" where
  "decomposes ms r \<longleftrightarrow>
     0 \<le> days r \<and> 0 \<le> hours r \<and> hours r < 24 \<and> 0 \<le> minutes r \<and> minutes r < 60 \<and>
     0 \<le> seconds r \<and> seconds r < 60 \<and>
     days r * 86400 + hours r * 3600 + minutes r * 60 + seconds r = ms div 1000"

subsection \<open>A platform instance for examples\<close>

definition digit_char :: "nat \<Rightarrow> code_unit" where
  "digit_char d = (js ''0123456789'') ! d"

function decimal :: "nat \<Rightarrow> jsstring" where
  "decimal n = (if n < 10 then [digit_char n] else decimal (n div 10) @ [digit_char (n mod 10)])"
  by pat_completeness auto
termination
  by (relation "measure id") auto

text \<open>
  A date platform small enough to evaluate: its parser reads two ISO texts and nothing
  else, its locale-aware methods know the locales \<open>en-IN\<close> and \<open>en-US\<close> and reject the
  others, and every method prints a time value as its count of milliseconds.
\<close>

definition sample_dates :: date_platform where
  "sample_dates =
     \<lparr>Date_parse = (\<lambda>s. if s = (js ''1970-01-01T00:00:00.000Z'') then Finite 0
                          else if s = (js ''1970-01-02T01:01:01.001Z'') then Finite 90061001
                          else NaN),
      toLocaleDateString = (\<lambda>t locale options.
         if locale \<in> set [(js ''en-IN''), (js ''en-US'')] then Some (decimal (nat \<bar>t\<bar>)) else None),
      toLocaleTimeString = (\<lambda>t locale options.
         if locale \<in> set [(js ''en-IN''), (js ''en-US'')] then Some (decimal (nat \<bar>t\<bar>)) else None),
      toLocaleString = (\<lambda>t locale options.
         if locale \<in> set [(js ''en-IN''), (js ''en-US'')] then Some (decimal (nat \<bar>t\<bar>)) else None),
      toISOString = (\<lambda>t. decimal (nat \<bar>t\<bar>))\<rparr>"

section \<open>Number formatting: \<open>formatDecimal\<close>\<close>

text \<open>
  Types are erased at run time, so the first argument can be any value. \<open>JSObject\<close>
  stands for every value that is not a primitive.
\<close>

datatype jsvalue = JSUndefined | JSNull | JSBoolean bool | JSNumber jsnumber | JSString jsstring | JSObject





subsection \<open>A number formatter for examples\<close>






subsection \<open>Texts with a fixed count of fraction digits\<close>

definition is_digit :: "code_unit \<Rightarrow> bool" where
  "is_digit c = (c \<in> set (js ''0123456789''))"




section \<open>The scroll-threshold hook \<open>useScroll\<close>\<close>

text \<open>The window, with the vertical scroll offset the hook reads.\<close>

record page =
  scrollY :: real

text \<open>
  A mounted hook: the state cell of \<^verbatim>\<open>useState(false)\<close>, whose content the hook
  returns, and the threshold of the latest render, which is the one the subscribed
  \<open>onScroll\<close> compares with.
\<close>

record scroll_hook =
  scrolled :: bool
  subscribed :: jsnumber

text \<open>
  The first render: \<^verbatim>\<open>const [scrolled, setScrolled] = useState(false);\<close>. The effect
  only subscribes \<open>onScroll\<close>; nothing reads the offset before a notification arrives.
\<close>

definition useScroll :: "jsnumber \<Rightarrow> page \<Rightarrow> scroll_hook" where
  "useScroll threshold window = \<lparr>scrolled = False, subscribed = threshold\<rparr>"

text \<open>\<^verbatim>\<open>setScrolled(window.scrollY > threshold);\<close>\<close>

definition onScroll :: "jsnumber \<Rightarrow> page \<Rightarrow> scroll_hook \<Rightarrow> scroll_hook" where
  "onScroll threshold window h = h\<lparr>scrolled := js_gt (Finite (scrollY window)) threshold\<rparr>"

text \<open>
  What happens to a mounted hook. \<open>Scroll y\<close>: the page scrolls to the offset \<open>y\<close> and
  the platform notifies the subscribed \<open>onScroll\<close>. \<open>Rerender t\<close>: the component renders
  again with the threshold \<open>t\<close>; \<^verbatim>\<open>useCallback\<close> makes a new \<open>onScroll\<close> when the
  threshold has changed and the effect subscribes it in place of the old one; the
  state cell is not touched.
\<close>

datatype scroll_event = Scroll real | Rerender jsnumber

fun scroll_step :: "page \<times> scroll_hook \<Rightarrow> scroll_event \<Rightarrow> page \<times> scroll_hook" where
  "scroll_step s (Scroll y) =
     (let window = (fst s)\<lparr>scrollY := y\<rparr> in (window, onScroll (subscribed (snd s)) window (snd s)))"
| "scroll_step s (Rerender t) = (fst s, (snd s)\<lparr>subscribed := t\<rparr>)"

definition scroll_run :: "scroll_event list \<Rightarrow> page \<times> scroll_hook \<Rightarrow> page \<times> scroll_hook" where
  "scroll_run es s = foldl scroll_step s es"

text \<open>
  The claim about the hook, at one moment: the boolean is \<open>o > t\<close> for the offset \<open>o\<close>
  of the page and the threshold \<open>t\<close> the hook was last rendered with.
\<close>

definition in_sync :: "page \<times> scroll_hook \<Rightarrow> bool" where
  "in_sync s = (scrolled (snd s) = js_gt (Finite (scrollY (fst s))) (subscribed (snd s)))"

section \<open>The persisted-state hook \<open>useLocalStorage\<close>\<close>

text \<open>
  \<^verbatim>\<open>JSON.stringify(v)\<close> returns a text, returns \<^verbatim>\<open>undefined\<close> (for
  \<^verbatim>\<open>undefined\<close>, a function or a symbol), or throws a TypeError (a cycle, a BigInt).
\<close>

datatype stringified = StringifyThrows | StringifyUndefined | StringifyText jsstring

text \<open>
  What the hook takes from the platform, for stored values of type \<open>'v\<close>:
  \<^verbatim>\<open>JSON.parse\<close> (\<open>None\<close> for the SyntaxError it throws), \<^verbatim>\<open>JSON.stringify\<close>, and
  whether the store has no room left to put a text under a key.
\<close>

record 'v storage_platform =
  JSON_parse :: "jsstring \<Rightarrow> 'v option"
  JSON_stringify :: "'v \<Rightarrow> stringified"
  quota_exceeded :: "(jsstring \<rightharpoonup> jsstring) \<Rightarrow> jsstring \<Rightarrow> jsstring \<Rightarrow> bool"

text \<open>The two \<^verbatim>\<open>console.warn\<close> messages, with the key and the caught exception.\<close>

datatype diagnostic = ReadWarning jsstring js_error | WriteWarning jsstring js_error

text \<open>
  The browser: the entries of \<^verbatim>\<open>window.localStorage\<close>, whether access to the store
  is denied (every access then throws a SecurityError), and what was written to the
  console.
\<close>

record browser =
  localStorage :: "jsstring \<rightharpoonup> jsstring"
  storage_denied :: bool
  console :: "diagnostic list"

definition getItem :: "browser \<Rightarrow> jsstring \<Rightarrow> js_error + jsstring option" where
  "getItem w key = (if storage_denied w then Inl SecurityError else Inr (localStorage w key))"

definition setItem :: "'v storage_platform \<Rightarrow> browser \<Rightarrow> jsstring \<Rightarrow> jsstring \<Rightarrow> js_error + browser" where
  "setItem P w key text =
     (if storage_denied w then Inl SecurityError
      else if quota_exceeded P (localStorage w) key text then Inl QuotaExceededError
      else Inr (w\<lparr>localStorage := (localStorage w)(key \<mapsto> text)\<rparr>))"

definition parse :: "'v storage_platform \<Rightarrow> jsstring \<Rightarrow> js_error + 'v" where
  "parse P text = (case JSON_parse P text of None \<Rightarrow> Inl SyntaxError | Some v \<Rightarrow> Inr v)"

definition warn :: "diagnostic \<Rightarrow> browser \<Rightarrow> browser" where
  "warn d w = w\<lparr>console := console w @ [d]\<rparr>"

text \<open>
  The body of the \<^verbatim>\<open>try\<close> in \<open>readValue\<close>:
  \<^verbatim>\<open>const item = window.localStorage.getItem(key);
  return item ? (JSON.parse(item) as T) : initialValue;\<close>
  \<open>item\<close> is falsy when it is \<^verbatim>\<open>null\<close> and when it is the empty text.
\<close>

definition readValue_try :: "'v storage_platform \<Rightarrow> jsstring \<Rightarrow> 'v \<Rightarrow> browser \<Rightarrow> js_error + 'v" where
  "readValue_try P key initialValue w =
     (case getItem w key of
        Inl e \<Rightarrow> Inl e
      | Inr item \<Rightarrow>
          (case item of
             None \<Rightarrow> Inr initialValue
           | Some text \<Rightarrow> if text = [] then Inr initialValue else parse P text))"

text \<open>
  \<open>readValue\<close> with its \<^verbatim>\<open>catch\<close>:
  \<^verbatim>\<open>console.warn(`Error reading localStorage key ...`, error); return initialValue;\<close>
\<close>

definition readValue :: "'v storage_platform \<Rightarrow> jsstring \<Rightarrow> 'v \<Rightarrow> browser \<Rightarrow> 'v \<times> browser" where
  "readValue P key initialValue w =
     (case readValue_try P key initialValue w of
        Inr v \<Rightarrow> (v, w)
      | Inl error \<Rightarrow> (initialValue, warn (ReadWarning key error) w))"

text \<open>
  A mounted hook, for \<^verbatim>\<open>const [storedValue, setStoredValue] = useState<T>(readValue);\<close>
  \<open>state_cell\<close> is the state cell that \<^verbatim>\<open>setStoredValue\<close> writes. \<open>storedValue\<close> is the
  constant of the latest render, the content of the cell at that render: it is what
  the hook returns and what the \<open>setValue\<close> of that render has in its closure.
\<close>

record 'v storage_hook =
  state_cell :: 'v
  storedValue :: 'v

text \<open>The first render of the hook: the state starts as what \<open>readValue\<close> returns.\<close>

definition useLocalStorage :: "'v storage_platform \<Rightarrow> jsstring \<Rightarrow> 'v \<Rightarrow> browser \<Rightarrow> 'v storage_hook \<times> browser" where
  "useLocalStorage P key initialValue w =
     (case readValue P key initialValue w of (v, w') \<Rightarrow> (\<lparr>state_cell = v, storedValue = v\<rparr>, w'))"

text \<open>A later render: \<open>storedValue\<close> is the content of the state cell.\<close>

definition render :: "'v storage_hook \<Rightarrow> 'v storage_hook" where
  "render h = h\<lparr>storedValue := state_cell h\<rparr>"

text \<open>\<^verbatim>\<open>SetStateAction<T>\<close>: a value, or a function of the previous value.\<close>

datatype 'v SetStateAction = Value 'v | Update "'v \<Rightarrow> 'v"

text \<open>
  \<^verbatim>\<open>value instanceof Function ? value(storedValue) : value\<close>, with the \<open>storedValue\<close> of
  the render that made this \<open>setValue\<close>.
\<close>

definition valueToStore :: "'v SetStateAction \<Rightarrow> 'v storage_hook \<Rightarrow> 'v" where
  "valueToStore value h = (case value of Update f \<Rightarrow> f (storedValue h) | Value v \<Rightarrow> v)"

text \<open>
  The body of the \<^verbatim>\<open>try\<close> in \<open>setValue\<close>:
  \<^verbatim>\<open>setStoredValue(valueToStore);
  window.localStorage.setItem(key, JSON.stringify(valueToStore));\<close>
  The state cell is set before anything can throw, so it is set in every outcome. In
  the second statement \<^verbatim>\<open>window.localStorage\<close> is evaluated first (a SecurityError
  when the store is denied), then the argument \<^verbatim>\<open>JSON.stringify(valueToStore)\<close>, then
  the call. \<^verbatim>\<open>setItem\<close> turns an \<^verbatim>\<open>undefined\<close> argument into the text \<open>undefined\<close>.
\<close>

definition setValue_try ::
  "'v storage_platform \<Rightarrow> jsstring \<Rightarrow> 'v SetStateAction \<Rightarrow> 'v storage_hook \<times> browser
     \<Rightarrow> 'v storage_hook \<times> (js_error + browser)" where
  "setValue_try P key value s =
     (let v = valueToStore value (fst s);
          h = (fst s)\<lparr>state_cell := v\<rparr>
      in (h, if storage_denied (snd s) then Inl SecurityError
             else (case JSON_stringify P v of
                     StringifyThrows \<Rightarrow> Inl TypeError
                   | StringifyUndefined \<Rightarrow> setItem P (snd s) key (js ''undefined'')
                   | StringifyText text \<Rightarrow> setItem P (snd s) key text)))"

text \<open>
  \<open>setValue\<close> with its \<^verbatim>\<open>catch\<close>:
  \<^verbatim>\<open>console.warn(`Error setting localStorage key ...`, error);\<close>
\<close>

definition setValue ::
  "'v storage_platform \<Rightarrow> jsstring \<Rightarrow> 'v SetStateAction \<Rightarrow> 'v storage_hook \<times> browser
     \<Rightarrow> 'v storage_hook \<times> browser" where
  "setValue P key value s =
     (case setValue_try P key value s of
        (h, Inr w) \<Rightarrow> (h, w)
      | (h, Inl error) \<Rightarrow> (h, warn (WriteWarning key error) (snd s)))"

text \<open>
  The listener for changes made in another tab:
  \<^verbatim>\<open>if (event.key === key) { setStoredValue(readValue()); }\<close>
  The key of the event is \<^verbatim>\<open>null\<close> (\<open>None\<close>) when the store was cleared.
\<close>

definition handleStorage ::
  "'v storage_platform \<Rightarrow> jsstring \<Rightarrow> 'v \<Rightarrow> jsstring option \<Rightarrow> 'v storage_hook \<times> browser
     \<Rightarrow> 'v storage_hook \<times> browser" where
  "handleStorage P key initialValue event_key s =
     (if event_key = Some key
      then (case readValue P key initialValue (snd s) of (v, w) \<Rightarrow> ((fst s)\<lparr>state_cell := v\<rparr>, w))
      else s)"

text \<open>
  A value survives serialization: \<^verbatim>\<open>JSON.stringify\<close> gives a text and
  \<^verbatim>\<open>JSON.parse\<close> of that text gives the value back.
\<close>

definition round_trips :: "'v storage_platform \<Rightarrow> 'v \<Rightarrow> bool" where
  "round_trips P v =
     (case JSON_stringify P v of
        StringifyText text \<Rightarrow> JSON_parse P text = Some v
      | _ \<Rightarrow> False)"

text \<open>
  The exception of the write of \<open>v\<close> under \<open>key\<close>, if there is one, in the order in
  which the statement is evaluated: the store is denied, \<^verbatim>\<open>JSON.stringify\<close> throws,
  or the store has no room for the text.
\<close>

definition write_error :: "'v storage_platform \<Rightarrow> browser \<Rightarrow> jsstring \<Rightarrow> 'v \<Rightarrow> js_error option" where
  "write_error P w key v =
     (if storage_denied w then Some SecurityError
      else (case JSON_stringify P v of
              StringifyThrows \<Rightarrow> Some TypeError
            | StringifyUndefined \<Rightarrow>
                if quota_exceeded P (localStorage w) key (js ''undefined'') then Some QuotaExceededError
                else None
            | StringifyText text \<Rightarrow>
                if quota_exceeded P (localStorage w) key text then Some QuotaExceededError else None))"

text \<open>
  What the round-trip claim asks of a setter call on a hook and a browser, for the
  value \<open>v\<close>: the in-memory copy is \<open>v\<close>, the text stored under the key deserializes
  to \<open>v\<close>, and a fresh hook on the key, with any initial value \<open>v0\<close>, reads \<open>v\<close> and
  leaves the browser as it is.
\<close>

definition reads_back ::
  "'v storage_platform \<Rightarrow> jsstring \<Rightarrow> 'v SetStateAction \<Rightarrow> 'v storage_hook \<times> browser \<Rightarrow> 'v \<Rightarrow> 'v \<Rightarrow> bool" where
  "reads_back P key a s v0 v =
     (let s' = setValue P key a s in
      state_cell (fst s') = v \<and>
      (case localStorage (snd s') key of
         None \<Rightarrow> False
       | Some text \<Rightarrow> JSON_parse P text = Some v) \<and>
      useLocalStorage P key v0 (snd s') = (\<lparr>state_cell = v, storedValue = v\<rparr>, snd s'))"

text \<open>The text that a successful write of \<open>v\<close> leaves in the store.\<close>

definition written_text :: "'v storage_platform \<Rightarrow> 'v \<Rightarrow> jsstring" where
  "written_text P v = (case JSON_stringify P v of StringifyText text \<Rightarrow> text | _ \<Rightarrow> js ''undefined'')"

subsection \<open>Storage platforms for examples\<close>

text \<open>
  JSON for the two truth values, and a store that takes texts of at most \<open>limit\<close> code
  units.
\<close>

definition bool_storage :: "nat \<Rightarrow> bool storage_platform" where
  "bool_storage limit =
     \<lparr>JSON_parse = (\<lambda>s. if s = (js ''true'') then Some True else if s = (js ''false'') then Some False else None),
      JSON_stringify = (\<lambda>b. StringifyText (if b then (js ''true'') else (js ''false''))),
      quota_exceeded = (\<lambda>entries key text. limit < length text)\<rparr>"

definition empty_browser :: browser where
  "empty_browser = \<lparr>localStorage = Map.empty, storage_denied = False, console = []\<rparr>"

text \<open>
  A value type \<^verbatim>\<open>number | boolean | null\<close> whose numbers are NaN, the two infinities
  and the whole numbers; \<open>JInt n\<close> stands for the double of value \<open>n\<close> and is meant for
  the safe integers, up to \<open>2 ^ 53\<close> in absolute value, which print as plain digits.
\<close>

datatype json_value = JNull | JBool bool | JNaN | JInfinity | JNegInfinity | JInt int

text \<open>
  \<^verbatim>\<open>JSON.stringify\<close> on these values: NaN and the infinities are written as \<open>null\<close>.
\<close>

definition json_stringify :: "json_value \<Rightarrow> jsstring" where
  "json_stringify v =
     (case v of
        JNull \<Rightarrow> js ''null''
      | JBool b \<Rightarrow> (if b then js ''true'' else js ''false'')
      | JNaN \<Rightarrow> js ''null''
      | JInfinity \<Rightarrow> js ''null''
      | JNegInfinity \<Rightarrow> js ''null''
      | JInt n \<Rightarrow> (if n < 0 then [0x2D] else []) @ decimal (nat \<bar>n\<bar>))"

definition digit_value :: "code_unit \<Rightarrow> nat" where
  "digit_value c = unat c - 48"

text \<open>
  A whole number in the grammar of JSON: digits, and no zero in front of another digit.
\<close>

definition parse_nat :: "jsstring \<Rightarrow> nat option" where
  "parse_nat ds =
     (if ds = [] \<or> \<not> list_all is_digit ds \<or> (1 < length ds \<and> hd ds = 0x30) then None
      else Some (foldl (\<lambda>a c. 10 * a + digit_value c) 0 ds))"

definition parse_int :: "jsstring \<Rightarrow> int option" where
  "parse_int s =
     (case s of
        [] \<Rightarrow> None
      | c # cs \<Rightarrow>
          if c = 0x2D then map_option (\<lambda>n. - int n) (parse_nat cs)
          else map_option int (parse_nat s))"

text \<open>
  \<^verbatim>\<open>JSON.parse\<close> on the texts that \<open>json_stringify\<close> writes, and on whole numbers in
  general. Every other text is a SyntaxError here: that is so for a text that is not
  JSON; a JSON text in another spelling (white space, a fraction, an exponent) or of
  another type (a string, an array, an object) is not modelled. The whole number
  \<open>-0\<close> is read as \<open>0\<close>.
\<close>

definition json_parse :: "jsstring \<Rightarrow> json_value option" where
  "json_parse s =
     (case parse_int s of
        Some n \<Rightarrow> Some (JInt n)
      | None \<Rightarrow>
          if s = js ''null'' then Some JNull
          else if s = js ''true'' then Some (JBool True)
          else if s = js ''false'' then Some (JBool False)
          else None)"

definition json_storage :: "json_value storage_platform" where
  "json_storage =
     \<lparr>JSON_parse = json_parse,
      JSON_stringify = (\<lambda>v. StringifyText (json_stringify v)),
      quota_exceeded = (\<lambda>entries key text. False)\<rparr>"

chapter \<open>Properties\<close>

section \<open>String functions\<close>

lemma split_str_unfold:
  "split_str c xs = takeWhile (\<lambda>x. x \<noteq> c) xs #
     (case dropWhile (\<lambda>x. x \<noteq> c) xs of [] \<Rightarrow> [] | _ # rest \<Rightarrow> split_str c rest)"
  by (induction xs) (auto split: list.splits)

text \<open>Dropping the empty pieces of \<open>split\<close> leaves the segments between the separators.\<close>

lemma filter_split_str:
  "filter (\<lambda>w. w \<noteq> []) (split_str c s) = segments (\<lambda>x. x = c) s"
proof (induction "\<lambda>x. x = c" s rule: segments.induct)
  case 1
  show ?case by simp
next
  case (2 x xs)
  show ?case
  proof (cases "x = c")
    case True
    with 2 show ?thesis by simp
  next
    case False
    have IH: "filter (\<lambda>w. w \<noteq> []) (split_str c (dropWhile (\<lambda>x. x \<noteq> c) xs)) =
         segments (\<lambda>x. x = c) (dropWhile (\<lambda>x. x \<noteq> c) xs)"
      using 2(2) False by simp
    obtain ws where ws: "split_str c xs = takeWhile (\<lambda>x. x \<noteq> c) xs # ws"
      and ws_def: "ws = (case dropWhile (\<lambda>x. x \<noteq> c) xs of [] \<Rightarrow> [] | _ # rest \<Rightarrow> split_str c rest)"
      using split_str_unfold [of c xs] by blast
    have "filter (\<lambda>w. w \<noteq> []) ws = filter (\<lambda>w. w \<noteq> []) (split_str c (dropWhile (\<lambda>x. x \<noteq> c) xs))"
    proof (cases "dropWhile (\<lambda>x. x \<noteq> c) xs")
      case Nil
      show ?thesis unfolding ws_def Nil by simp
    next
      case (Cons y rest)
      then have "y = c" using hd_dropWhile [of "\<lambda>x. x \<noteq> c" xs] by force
      then show ?thesis unfolding ws_def Cons by simp
    qed
    with IH False ws show ?thesis by simp
  qed
qed

lemma segments_nonempty: "w \<in> set (segments sep s) \<Longrightarrow> w \<noteq> []"
  by (induction sep s rule: segments.induct) (auto split: if_splits)

lemma segments_no_separator: "w \<in> set (segments sep s) \<Longrightarrow> x \<in> set w \<Longrightarrow> \<not> sep x"
  by (induction sep s rule: segments.induct) (auto split: if_splits dest: set_takeWhileD)

text \<open>\<open>nameInitials\<close> in terms of the segments between spaces, the exception included.\<close>

lemma nameInitials_initials_of:
  "nameInitials up s =
     (case initials_of up (segments (\<lambda>c. c = 0x20) (trim s)) of
        None \<Rightarrow> Inl TypeError | Some r \<Rightarrow> Inr r)"
proof -
  let ?segs = "segments (\<lambda>c. c = 0x20) (trim s)"
  have f: "filter (\<lambda>w. w \<noteq> []) (split_str 0x20 (trim s)) = ?segs"
    by (rule filter_split_str)
  show ?thesis
  proof (cases ?segs)
    case Nil
    then show ?thesis by (simp add: nameInitials_def f)
  next
    case (Cons w ws)
    show ?thesis
    proof (cases ws)
      case Nil
      with Cons show ?thesis by (simp add: nameInitials_def f charAt0_def)
    next
      case (Cons v vs)
      with \<open>?segs = w # ws\<close> show ?thesis
        by (simp add: nameInitials_def f charAt0_def last_conv_nth)
    qed
  qed
qed

lemma dropWhile_all_iff: "(\<forall>x \<in> set (dropWhile P xs). P x) \<longleftrightarrow> dropWhile P xs = []"
proof
  assume a: "\<forall>x \<in> set (dropWhile P xs). P x"
  show "dropWhile P xs = []"
  proof (rule ccontr)
    assume n: "dropWhile P xs \<noteq> []"
    then have "\<not> P (hd (dropWhile P xs))" by (rule hd_dropWhile)
    moreover have "hd (dropWhile P xs) \<in> set (dropWhile P xs)" using n by simp
    ultimately show False using a by blast
  qed
next
  assume e: "dropWhile P xs = []"
  show "\<forall>x \<in> set (dropWhile P xs). P x" unfolding e by simp
qed

lemma trim_empty_iff: "trim s = [] \<longleftrightarrow> (\<forall>c \<in> set s. isWhiteSpace c)"
proof -
  have "trim s = [] \<longleftrightarrow> (\<forall>x \<in> set (dropWhile isWhiteSpace s). isWhiteSpace x)"
    by (simp add: trim_def)
  also have "\<dots> \<longleftrightarrow> dropWhile isWhiteSpace s = []" by (rule dropWhile_all_iff)
  also have "\<dots> \<longleftrightarrow> (\<forall>c \<in> set s. isWhiteSpace c)" by (rule dropWhile_eq_Nil_conv)
  finally show ?thesis .
qed

text \<open>A trimmed text that is not empty starts with a code unit that is not whitespace.\<close>

lemma trim_starts_with_text:
  assumes "trim s \<noteq> []"
  shows "\<not> isWhiteSpace (hd (trim s))"
proof -
  let ?t = "dropWhile isWhiteSpace s"
  have t: "?t \<noteq> []"
  proof
    assume e: "?t = []"
    have "trim s = []" unfolding trim_def e by simp
    with assms show False by simp
  qed
  then obtain a t' where at: "?t = a # t'" by (cases ?t) auto
  have a: "\<not> isWhiteSpace a" using hd_dropWhile [OF t] at by simp
  have "\<exists>zs. dropWhile isWhiteSpace (rev ?t) = zs @ [a]"
    unfolding at using a by (simp add: dropWhile_append)
  then obtain zs where "dropWhile isWhiteSpace (rev ?t) = zs @ [a]" ..
  then have "trim s = a # rev zs" by (simp add: trim_def)
  with a show ?thesis by simp
qed

lemma segments_space_trim:
  "segments (\<lambda>c. c = 0x20) (trim s) = [] \<longleftrightarrow> (\<forall>c \<in> set s. isWhiteSpace c)"
proof (cases "trim s")
  case Nil
  then show ?thesis using trim_empty_iff [of s] by simp
next
  case (Cons a rest)
  then have "\<not> isWhiteSpace a" using trim_starts_with_text [of s] by simp
  then have "a \<noteq> 0x20" by (auto simp: isWhiteSpace_def)
  with Cons show ?thesis using trim_empty_iff [of s] by simp
qed

lemma initials_of_None: "initials_of up segs = None \<longleftrightarrow> segs = []"
  by (cases "(up, segs)" rule: initials_of.cases) auto

text \<open>The examples of the documentation, on ASCII text.\<close>

lemma slugToString_examples:
  "slugToString ascii_toUpperCase (js ''hello-world'') = (js ''Hello World'')"
  "slugToString up [] = []"
  "slugToString up (js ''   '') = (js ''   '')"
  by (simp_all add: slugToString_def trim_def isWhiteSpace_def charAt0_def slice1_def
        ascii_toUpperCase_def ascii_upper_char_def js_def)

lemma capitalizeFirstLetter_examples:
  "capitalizeFirstLetter ascii_toUpperCase (js ''kanhu'') = (js ''Kanhu'')"
  "capitalizeFirstLetter up [] = []"
  by (simp_all add: capitalizeFirstLetter_def charAt0_def slice1_def ascii_toUpperCase_def
        ascii_upper_char_def js_def)

lemma nameInitials_examples:
  "nameInitials ascii_toUpperCase (js ''John Doe'') = Inr (js ''JD'')"
  "nameInitials ascii_toUpperCase (js ''Alice'') = Inr (js ''A'')"
  "nameInitials ascii_toUpperCase (js ''Mary Jane Watson'') = Inr (js ''MW'')"
  by (simp_all add: nameInitials_def trim_def isWhiteSpace_def charAt0_def ascii_toUpperCase_def
        ascii_upper_char_def js_def)

text \<open>
  Claim C3. Every string function returns a string on every text, the empty text and
  the texts of whitespace only included. \<open>slugToString\<close> and \<open>capitalizeFirstLetter\<close> do:
  both guard the empty case and have no failing branch. \<open>nameInitials\<close> does not: it
  throws a TypeError exactly on the texts that hold nothing but whitespace (the empty
  text among them) and returns a string on every other text.
\<close>

theorem nameInitials_throws_iff_blank:
  "(nameInitials up s = Inl TypeError \<longleftrightarrow> (\<forall>c \<in> set s. isWhiteSpace c)) \<and>
   ((\<exists>r. nameInitials up s = Inr r) \<longleftrightarrow> (\<exists>c \<in> set s. \<not> isWhiteSpace c))"
proof -
  let ?segs = "segments (\<lambda>c. c = 0x20) (trim s)"
  have n: "nameInitials up s =
     (case initials_of up ?segs of None \<Rightarrow> Inl TypeError | Some r \<Rightarrow> Inr r)"
    by (rule nameInitials_initials_of)
  have e: "initials_of up ?segs = None \<longleftrightarrow> (\<forall>c \<in> set s. isWhiteSpace c)"
    using initials_of_None [of up ?segs] segments_space_trim [of s] by simp
  show ?thesis
  proof (cases "initials_of up ?segs")
    case None
    with n e show ?thesis by auto
  next
    case (Some r)
    with n e show ?thesis by auto
  qed
qed

theorem nameInitials_throws_iff_blank_witness:
  "nameInitials ascii_toUpperCase (js ''   '') = Inl TypeError \<and>
   nameInitials ascii_toUpperCase [] = Inl TypeError \<and>
   isWhiteSpace 0x20"
proof -
  have b: "\<forall>c \<in> set (js ''   ''). isWhiteSpace c" by (simp add: isWhiteSpace_def js_def)
  have e: "\<forall>c \<in> set ([] :: jsstring). isWhiteSpace c" by simp
  have w: "isWhiteSpace 0x20" by (simp add: isWhiteSpace_def)
  show ?thesis
    using nameInitials_throws_iff_blank [of ascii_toUpperCase "js ''   ''"]
      nameInitials_throws_iff_blank [of ascii_toUpperCase "[]"] b e w
    by simp
qed




section \<open>Date and time functions\<close>

lemma as_Date_new_Date: "as_Date P v = new_Date P v"
  by (simp add: as_Date_def new_Date_def split: date_input.splits)

lemma formatted_not_invalid_date: "formatted r \<noteq> Inl (Error (js ''Invalid date input''))"
  by (simp add: formatted_def split: option.splits)

text \<open>
  Claim C5. Each of the five date functions throws the error \<open>Invalid date input\<close> if
  and only if its input (one of its two inputs, for \<open>timeDifference\<close>) does not give a
  valid instant, that is, \<^verbatim>\<open>new Date(input)\<close> is an invalid date. For such an input
  no function returns a value, so none returns a sentinel.
\<close>

theorem date_functions_invalid_date:
  "(formatDate P x loc opts = Inl (Error (js ''Invalid date input'')) \<longleftrightarrow> new_Date P x = None) \<and>
   (formatTime P x opts loc = Inl (Error (js ''Invalid date input'')) \<longleftrightarrow> new_Date P x = None) \<and>
   (formatDateTimeToLocale P x loc opts = Inl (Error (js ''Invalid date input'')) \<longleftrightarrow> new_Date P x = None) \<and>
   (constructUTCFormat P x fmt loc = Inl (Error (js ''Invalid date input'')) \<longleftrightarrow> new_Date P x = None) \<and>
   (timeDifference P x y = Inl (Error (js ''Invalid date input''))
      \<longleftrightarrow> new_Date P x = None \<or> new_Date P y = None)"
proof -
  note f = formatted_not_invalid_date
  have 1: "formatDate P x loc opts = Inl (Error (js ''Invalid date input'')) \<longleftrightarrow> new_Date P x = None"
    by (simp add: formatDate_def Let_def f split: option.splits)
  have 2: "formatTime P x opts loc = Inl (Error (js ''Invalid date input'')) \<longleftrightarrow> new_Date P x = None"
    by (simp add: formatTime_def Let_def f split: option.splits)
  have 3: "formatDateTimeToLocale P x loc opts = Inl (Error (js ''Invalid date input''))
             \<longleftrightarrow> new_Date P x = None"
    by (simp add: formatDateTimeToLocale_def Let_def f split: option.splits)
  have 4: "constructUTCFormat P x fmt loc = Inl (Error (js ''Invalid date input'')) \<longleftrightarrow> new_Date P x = None"
    by (simp add: constructUTCFormat_def Let_def f split: option.splits)
  have 5: "timeDifference P x y = Inl (Error (js ''Invalid date input''))
             \<longleftrightarrow> new_Date P x = None \<or> new_Date P y = None"
    by (auto simp add: timeDifference_def as_Date_new_Date Let_def split: option.splits)
  from 1 2 3 4 5 show ?thesis by blast
qed

theorem date_functions_invalid_date_witness:
  "new_Date sample_dates (DateString (js ''yesterday'')) = None \<and>
   formatDate sample_dates (DateString (js ''yesterday'')) None None = Inl (Error (js ''Invalid date input'')) \<and>
   formatTime sample_dates (DateString (js ''yesterday'')) None None = Inl (Error (js ''Invalid date input'')) \<and>
   formatDateTimeToLocale sample_dates (DateString (js ''yesterday'')) None None
     = Inl (Error (js ''Invalid date input'')) \<and>
   constructUTCFormat sample_dates (DateString (js ''yesterday'')) None None
     = Inl (Error (js ''Invalid date input'')) \<and>
   timeDifference sample_dates (DateNumber (Finite 0)) (DateString (js ''yesterday''))
     = Inl (Error (js ''Invalid date input'')) \<and>
   new_Date sample_dates (DateNumber (Finite 0)) = Some 0 \<and>
   formatDate sample_dates (DateNumber (Finite 0)) None None \<noteq> Inl (Error (js ''Invalid date input''))"
proof -
  have bad: "new_Date sample_dates (DateString (js ''yesterday'')) = None"
    by (simp add: new_Date_def sample_dates_def js_def TimeClip_def)
  have good: "new_Date sample_dates (DateNumber (Finite 0)) = Some 0"
    by (simp add: new_Date_def TimeClip_def)
  show ?thesis
    using date_functions_invalid_date
        [of sample_dates "DateString (js ''yesterday'')" None None None "DateString (js ''yesterday'')"]
      date_functions_invalid_date
        [of sample_dates "DateNumber (Finite 0)" None None None "DateString (js ''yesterday'')"]
      bad good
    by simp
qed

lemma round_to_double_exact: "\<bar>n\<bar> \<le> 2 ^ 53 \<Longrightarrow> round_to_double n = n"
  by (simp add: round_to_double_def)

lemma div_bound:
  fixes x :: int
  assumes "0 \<le> x" "x < k * m" "0 < m"
  shows "0 \<le> x div m \<and> x div m < k"
proof
  show "0 \<le> x div m" using assms by (simp add: pos_imp_zdiv_nonneg_iff)
  have e: "m * (x div m) + x mod m = x" by simp
  have p: "0 \<le> x mod m" using assms(3) by simp
  from e p have "m * (x div m) \<le> x" by linarith
  with assms(2) have "m * (x div m) < k * m" by linarith
  then have "m * (x div m) < m * k" by (simp add: mult.commute)
  then show "x div m < k" using \<open>0 < m\<close> by (simp add: mult_less_cancel_left_pos)
qed

lemma units_bounds:
  fixes D :: int
  assumes "0 \<le> D"
  shows "0 \<le> D div 86400000"
    "0 \<le> D mod 86400000 div 3600000 \<and> D mod 86400000 div 3600000 < 24"
    "0 \<le> D mod 3600000 div 60000 \<and> D mod 3600000 div 60000 < 60"
    "0 \<le> D mod 60000 div 1000 \<and> D mod 60000 div 1000 < 60"
proof -
  show "0 \<le> D div 86400000" using assms by (simp add: pos_imp_zdiv_nonneg_iff)
  show "0 \<le> D mod 86400000 div 3600000 \<and> D mod 86400000 div 3600000 < 24"
    by (rule div_bound) simp_all
  show "0 \<le> D mod 3600000 div 60000 \<and> D mod 3600000 div 60000 < 60"
    by (rule div_bound) simp_all
  show "0 \<le> D mod 60000 div 1000 \<and> D mod 60000 div 1000 < 60"
    by (rule div_bound) simp_all
qed

lemma mod_div_step:
  fixes D :: int
  assumes "0 < a" "0 < b"
  shows "D mod (a * b) div a = D div a mod b"
  using assms by (simp add: zmod_zmult2_eq)

text \<open>The four components, weighted by their units in seconds, add up to the whole seconds.\<close>

lemma units_sum:
  fixes D :: int
  shows "D div 86400000 * 86400 + D mod 86400000 div 3600000 * 3600
         + D mod 3600000 div 60000 * 60 + D mod 60000 div 1000 = D div 1000"
proof -
  define S where "S = D div 1000"
  have d: "D div 86400000 = S div 86400"
    using zdiv_zmult2_eq [where a = D and b = 1000 and c = 86400] by (simp add: S_def)
  have h: "D mod 86400000 div 3600000 = S mod 86400 div 3600"
  proof -
    have "D mod 86400000 div 3600000 = D mod (1000 * 86400) div 1000 div 3600"
      using zdiv_zmult2_eq [where a = "D mod 86400000" and b = 1000 and c = 3600] by simp
    also have "D mod (1000 * 86400) div 1000 = S mod 86400"
      unfolding S_def by (rule mod_div_step) simp_all
    finally show ?thesis .
  qed
  have m: "D mod 3600000 div 60000 = S mod 3600 div 60"
  proof -
    have "D mod 3600000 div 60000 = D mod (1000 * 3600) div 1000 div 60"
      using zdiv_zmult2_eq [where a = "D mod 3600000" and b = 1000 and c = 60] by simp
    also have "D mod (1000 * 3600) div 1000 = S mod 3600"
      unfolding S_def by (rule mod_div_step) simp_all
    finally show ?thesis .
  qed
  have s: "D mod 60000 div 1000 = S mod 60"
    using mod_div_step [of 1000 60 D] by (simp add: S_def)
  have h': "S mod 86400 div 3600 = S div 3600 mod 24"
    using mod_div_step [of 3600 24 S] by simp
  have m': "S mod 3600 div 60 = S div 60 mod 60"
    using mod_div_step [of 60 60 S] by simp
  have a: "S div 86400 = S div 3600 div 24"
    using zdiv_zmult2_eq [where a = S and b = 3600 and c = 24] by simp
  have b: "S div 3600 = S div 60 div 60"
    using zdiv_zmult2_eq [where a = S and b = 60 and c = 60] by simp
  have e1: "S div 3600 div 24 * 24 + S div 3600 mod 24 = S div 3600" by simp
  have e2: "S div 60 div 60 * 60 + S div 60 mod 60 = S div 60" by simp
  have e3: "S div 60 * 60 + S mod 60 = S" by simp
  have "S div 3600 div 24 * 86400 + S div 3600 mod 24 * 3600 + S div 60 mod 60 * 60 + S mod 60 = S"
    using e1 e2 [folded b] e3 by linarith
  then have "S div 86400 * 86400 + S mod 86400 div 3600 * 3600 + S mod 3600 div 60 * 60 + S mod 60 = S"
    unfolding h' m' a .
  then show ?thesis unfolding d h m s S_def .
qed

text \<open>
  Claim C6, as stated, for every pair of valid instants. At the two ends of the range
  of time values, \<open>8640000000000000\<close> and \<open>-8639999999999999\<close>, the difference
  \<open>17279999999999999\<close> is beyond \<open>2 ^ 53\<close> and not a double: the subtraction rounds it to
  \<open>17280000000000000\<close>, and the result is 200000000 days and nothing else, one second
  more than the whole seconds of the duration.
\<close>

theorem timeDifference_rounding_counterexample:
  "as_Date sample_dates (DateNumber (Finite 8640000000000000)) = Some 8640000000000000 \<and>
   as_Date sample_dates (DateNumber (Finite (- 8639999999999999))) = Some (- 8639999999999999) \<and>
   timeDifference sample_dates (DateNumber (Finite 8640000000000000))
       (DateNumber (Finite (- 8639999999999999)))
     = Inr \<lparr>days = 200000000, hours = 0, minutes = 0, seconds = 0\<rparr> \<and>
   \<not> decomposes \<bar>8640000000000000 - (- 8639999999999999)\<bar>
        \<lparr>days = 200000000, hours = 0, minutes = 0, seconds = 0\<rparr>"
proof -
  have r: "round_to_double 17279999999999999 = 17280000000000000"
    by (simp add: round_to_double_def compute_floorlog)
  show ?thesis
    by (simp add: timeDifference_def as_Date_def new_Date_def TimeClip_def number_sub_def r
          decomposes_def)
qed

text \<open>
  Claim C6, amended: for every pair of valid instants at most \<open>2 ^ 53\<close> milliseconds
  apart (some 285000 years), \<open>timeDifference\<close> returns the absolute duration split
  into days, hours, minutes and seconds, none negative, with hours below 24, minutes
  and seconds below 60, and \<open>days * 86400 + hours * 3600 + minutes * 60 + seconds\<close> the
  whole seconds of the duration; for two equal instants all four are zero.
\<close>

theorem timeDifference_decomposition:
  assumes "as_Date P a = Some t1" and "as_Date P b = Some t2" and "\<bar>t1 - t2\<bar> \<le> 2 ^ 53"
  shows "case timeDifference P a b of
           Inl e \<Rightarrow> False
         | Inr r \<Rightarrow> decomposes \<bar>t1 - t2\<bar> r \<and>
                    (t1 = t2 \<longrightarrow> r = \<lparr>days = 0, hours = 0, minutes = 0, seconds = 0\<rparr>)"
proof -
  define D where "D = \<bar>t1 - t2\<bar>"
  have D0: "0 \<le> D" by (simp add: D_def)
  have sub: "\<bar>number_sub t1 t2\<bar> = D"
    using assms(3) by (simp add: number_sub_def round_to_double_exact D_def)
  have res: "timeDifference P a b =
      Inr \<lparr>days = D div 86400000, hours = D mod 86400000 div 3600000,
           minutes = D mod 3600000 div 60000, seconds = D mod 60000 div 1000\<rparr>"
    using assms(1,2) by (simp add: timeDifference_def sub Let_def)
  have dec: "decomposes D \<lparr>days = D div 86400000, hours = D mod 86400000 div 3600000,
           minutes = D mod 3600000 div 60000, seconds = D mod 60000 div 1000\<rparr>"
    unfolding decomposes_def time_difference.select_convs
    using units_bounds [OF D0] units_sum [of D] by blast
  have zero: "t1 = t2 \<Longrightarrow> D = 0" by (simp add: D_def)
  have z: "D = 0 \<Longrightarrow> \<lparr>days = D div 86400000, hours = D mod 86400000 div 3600000,
           minutes = D mod 3600000 div 60000, seconds = D mod 60000 div 1000\<rparr>
         = \<lparr>days = 0, hours = 0, minutes = 0, seconds = 0\<rparr>" by simp
  show ?thesis unfolding res sum.case using dec zero z unfolding D_def by blast
qed

theorem timeDifference_decomposition_witness:
  "timeDifference sample_dates (DateObject (Some 90061001)) (DateNumber (Finite 0))
     = Inr \<lparr>days = 1, hours = 1, minutes = 1, seconds = 1\<rparr> \<and>
   decomposes 90061001 \<lparr>days = 1, hours = 1, minutes = 1, seconds = 1\<rparr> \<and>
   timeDifference sample_dates (DateString (js ''1970-01-02T01:01:01.001Z'')) (DateObject (Some 90061001))
     = Inr \<lparr>days = 0, hours = 0, minutes = 0, seconds = 0\<rparr>"
proof -
  have a: "as_Date sample_dates (DateObject (Some 90061001)) = Some 90061001"
    by (simp add: as_Date_def)
  have b: "as_Date sample_dates (DateNumber (Finite 0)) = Some 0"
    by (simp add: as_Date_def new_Date_def TimeClip_def)
  have s: "as_Date sample_dates (DateString (js ''1970-01-02T01:01:01.001Z'')) = Some 90061001"
    by (simp add: as_Date_def new_Date_def TimeClip_def sample_dates_def js_def)
  have c: "\<bar>90061001 - 0\<bar> \<le> (2::int) ^ 53" by simp
  have c': "\<bar>90061001 - 90061001\<bar> \<le> (2::int) ^ 53" by simp
  have r: "timeDifference sample_dates (DateObject (Some 90061001)) (DateNumber (Finite 0))
     = Inr \<lparr>days = 1, hours = 1, minutes = 1, seconds = 1\<rparr>"
    by (simp add: timeDifference_def a b number_sub_def round_to_double_def)
  have 1: "decomposes 90061001 \<lparr>days = 1, hours = 1, minutes = 1, seconds = 1\<rparr>"
    using timeDifference_decomposition [OF a b c] unfolding r by simp
  have 2: "timeDifference sample_dates (DateString (js ''1970-01-02T01:01:01.001Z''))
      (DateObject (Some 90061001)) = Inr \<lparr>days = 0, hours = 0, minutes = 0, seconds = 0\<rparr>"
    using timeDifference_decomposition [OF s a c'] by (simp split: sum.splits)
  from r 1 2 show ?thesis by simp
qed

section \<open>Decimal digits\<close>

lemma digit_cases:
  fixes d :: nat
  assumes "d < 10"
  shows "d = 0 \<or> d = 1 \<or> d = 2 \<or> d = 3 \<or> d = 4 \<or> d = 5 \<or> d = 6 \<or> d = 7 \<or> d = 8 \<or> d = 9"
  using assms by arith

lemma digit_char_is_digit: "d < 10 \<Longrightarrow> is_digit (digit_char d)"
  using digit_cases [of d] by (auto simp: is_digit_def digit_char_def js_def)

lemma digit_value_digit_char: "d < 10 \<Longrightarrow> digit_value (digit_char d) = d"
  using digit_cases [of d] by (auto simp: digit_value_def digit_char_def js_def)

lemma digit_char_zero: "d < 10 \<Longrightarrow> digit_char d = 0x30 \<longleftrightarrow> d = 0"
  using digit_cases [of d] by (auto simp: digit_char_def js_def)

lemma decimal_nonempty: "decimal n \<noteq> []"
  by (induction n rule: decimal.induct) (subst decimal.simps, simp)

lemma decimal_digits: "list_all is_digit (decimal n)"
proof (induction n rule: decimal.induct)
  case (1 n)
  show ?case
  proof (cases "n < 10")
    case True
    then show ?thesis by (subst decimal.simps) (simp add: digit_char_is_digit)
  next
    case False
    with 1 have "list_all is_digit (decimal (n div 10))" by simp
    moreover have "is_digit (digit_char (n mod 10))" by (rule digit_char_is_digit) simp
    ultimately show ?thesis using False by (subst decimal.simps) simp
  qed
qed

text \<open>Reading the digits that \<open>decimal\<close> writes gives the number back.\<close>

lemma decimal_value: "foldl (\<lambda>a c. 10 * a + digit_value c) 0 (decimal n) = n"
proof (induction n rule: decimal.induct)
  case (1 n)
  show ?case
  proof (cases "n < 10")
    case True
    then show ?thesis by (subst decimal.simps) (simp add: digit_value_digit_char)
  next
    case False
    with 1 have "foldl (\<lambda>a c. 10 * a + digit_value c) 0 (decimal (n div 10)) = n div 10" by simp
    moreover have "digit_value (digit_char (n mod 10)) = n mod 10"
      by (rule digit_value_digit_char) simp
    ultimately show ?thesis using False by (subst decimal.simps) simp
  qed
qed

lemma decimal_one_digit: "1 < length (decimal n) \<Longrightarrow> 10 \<le> n"
proof (rule ccontr)
  assume l: "1 < length (decimal n)" and "\<not> 10 \<le> n"
  then have "n < 10" by simp
  then have "decimal n = [digit_char n]" by (subst decimal.simps) simp
  with l show False by simp
qed

lemma decimal_no_leading_zero: "0 < n \<Longrightarrow> hd (decimal n) \<noteq> 0x30"
proof (induction n rule: decimal.induct)
  case (1 n)
  show ?case
  proof (cases "n < 10")
    case True
    then have "decimal n = [digit_char n]" by (subst decimal.simps) simp
    with True 1(2) show ?thesis by (simp add: digit_char_zero)
  next
    case False
    then have pos: "0 < n div 10" by simp
    with 1(1) False have "hd (decimal (n div 10)) \<noteq> 0x30" by simp
    moreover have "decimal n = decimal (n div 10) @ [digit_char (n mod 10)]"
      using False by (subst decimal.simps) simp
    ultimately show ?thesis by (simp add: decimal_nonempty)
  qed
qed


section \<open>Number formatting\<close>

















section \<open>The scroll-threshold hook\<close>

lemma scroll_run_snoc: "scroll_run (es @ [e]) s = scroll_step (scroll_run es s) e"
  by (simp add: scroll_run_def)

lemma scroll_step_Scroll:
  "scroll_step s (Scroll y) =
     ((fst s)\<lparr>scrollY := y\<rparr>, (snd s)\<lparr>scrolled := js_gt (Finite y) (subscribed (snd s))\<rparr>)"
  by (simp add: onScroll_def Let_def)

text \<open>
  Claim C2. The boolean of the hook is \<open>o > t\<close> for the offset \<open>o\<close> and the threshold
  \<open>t\<close> at all times while the hook is active, false at the boundary \<open>o = t\<close>. The hook
  computes the boolean in the scroll listener only, so the claim holds right after
  every scroll notification and \<open>o > t\<close> is false at the boundary, but:
  a hook mounted on a page holds the claim exactly when that page is not scrolled past
  the threshold; and a render with another threshold keeps the old boolean, so the
  claim then holds exactly when the old boolean happens to be right for the new
  threshold.
\<close>

theorem useScroll_in_sync:
  "scrolled (useScroll t window) = False \<and>
   (in_sync (window, useScroll t window) \<longleftrightarrow> \<not> js_gt (Finite (scrollY window)) t) \<and>
   in_sync (scroll_run (es @ [Scroll y]) s) \<and>
   scrollY (fst (scroll_run (es @ [Scroll y]) s)) = y \<and>
   scrolled (snd (scroll_run (es @ [Scroll y]) s)) = js_gt (Finite y) (subscribed (snd (scroll_run es s))) \<and>
   (in_sync (scroll_run (es @ [Rerender t']) s) \<longleftrightarrow>
      scrolled (snd (scroll_run es s)) = js_gt (Finite (scrollY (fst (scroll_run es s)))) t') \<and>
   js_gt (Finite y) (Finite b) = (b < y) \<and>
   \<not> js_gt (Finite b) (Finite b)"
proof -
  have mount: "in_sync (window, useScroll t window) \<longleftrightarrow> \<not> js_gt (Finite (scrollY window)) t"
    by (simp add: in_sync_def useScroll_def)
  have after_scroll: "scroll_run (es @ [Scroll y]) s =
      ((fst (scroll_run es s))\<lparr>scrollY := y\<rparr>,
       (snd (scroll_run es s))\<lparr>scrolled := js_gt (Finite y) (subscribed (snd (scroll_run es s)))\<rparr>)"
    unfolding scroll_run_snoc by (rule scroll_step_Scroll)
  have sync: "in_sync (scroll_run (es @ [Scroll y]) s)"
    unfolding after_scroll by (simp add: in_sync_def)
  have rerender: "in_sync (scroll_run (es @ [Rerender t']) s) \<longleftrightarrow>
      scrolled (snd (scroll_run es s)) = js_gt (Finite (scrollY (fst (scroll_run es s)))) t'"
    unfolding scroll_run_snoc by (simp add: in_sync_def)
  show ?thesis
    using mount sync rerender unfolding after_scroll by (simp add: useScroll_def)
qed

theorem useScroll_in_sync_witness:
  "scrolled (useScroll (Finite 100) \<lparr>scrollY = 500\<rparr>) = False \<and>
   js_gt (Finite (scrollY \<lparr>scrollY = 500\<rparr>)) (Finite 100) \<and>
   \<not> in_sync (\<lparr>scrollY = 500\<rparr>, useScroll (Finite 100) \<lparr>scrollY = 500\<rparr>) \<and>
   in_sync (scroll_run [Scroll 150] (\<lparr>scrollY = 0\<rparr>, useScroll (Finite 100) \<lparr>scrollY = 0\<rparr>)) \<and>
   scrolled (snd (scroll_run [Scroll 150, Rerender (Finite 200)]
                    (\<lparr>scrollY = 0\<rparr>, useScroll (Finite 100) \<lparr>scrollY = 0\<rparr>))) = True \<and>
   \<not> in_sync (scroll_run [Scroll 150, Rerender (Finite 200)]
                (\<lparr>scrollY = 0\<rparr>, useScroll (Finite 100) \<lparr>scrollY = 0\<rparr>)) \<and>
   scrolled (snd (scroll_run [Scroll 50, Scroll 100]
                    (\<lparr>scrollY = 0\<rparr>, useScroll (Finite 100) \<lparr>scrollY = 0\<rparr>))) = False"
proof -
  let ?p = "\<lparr>scrollY = 500\<rparr>"
  let ?s = "(\<lparr>scrollY = 0\<rparr>, useScroll (Finite 100) \<lparr>scrollY = 0\<rparr>)"
  have before: "scroll_run [Scroll 150] ?s =
      (\<lparr>scrollY = 150\<rparr>, \<lparr>scrolled = True, subscribed = Finite 100\<rparr>)"
    by (simp add: scroll_run_def onScroll_def useScroll_def)
  have 1: "\<not> in_sync (?p, useScroll (Finite 100) ?p)"
    using useScroll_in_sync [of "Finite 100" ?p] by simp
  have 2: "in_sync (scroll_run [Scroll 150] ?s)"
    using useScroll_in_sync [of "Finite 100" ?p "[]" 150 ?s] by simp
  have 3: "\<not> in_sync (scroll_run [Scroll 150, Rerender (Finite 200)] ?s)"
    using useScroll_in_sync [of "Finite 100" ?p "[Scroll 150]" 150 ?s "Finite 200"] before
    by simp
  have 4: "scrolled (snd (scroll_run [Scroll 150, Rerender (Finite 200)] ?s)) = True"
    by (simp add: scroll_run_def onScroll_def useScroll_def)
  have 5: "scrolled (snd (scroll_run [Scroll 50, Scroll 100] ?s)) = False"
    using useScroll_in_sync [of "Finite 100" ?p "[Scroll 50]" 100 ?s]
    by (simp add: scroll_run_def onScroll_def useScroll_def)
  from 1 2 3 4 5 show ?thesis by (simp add: useScroll_def)
qed

section \<open>The persisted-state hook\<close>

lemma readValue_try_denied:
  "storage_denied w \<Longrightarrow> readValue_try P key v0 w = Inl SecurityError"
  by (simp add: readValue_try_def getItem_def)

lemma readValue_try_open:
  "\<not> storage_denied w \<Longrightarrow>
   readValue_try P key v0 w =
     (case localStorage w key of
        None \<Rightarrow> Inr v0
      | Some text \<Rightarrow> if text = [] then Inr v0 else parse P text)"
  by (simp add: readValue_try_def getItem_def)

lemma readValue_keeps_store:
  "localStorage (snd (readValue P key v0 w)) = localStorage w \<and>
   storage_denied (snd (readValue P key v0 w)) = storage_denied w"
  by (simp add: readValue_def warn_def split: sum.splits)

text \<open>The listener re-reads the store for its own key and ignores every other event.\<close>

lemma handleStorage_own_key:
  "handleStorage P key v0 (Some key) (h, w) =
     (h\<lparr>state_cell := fst (readValue P key v0 w)\<rparr>, snd (readValue P key v0 w))"
  by (simp add: handleStorage_def split: prod.splits)

lemma handleStorage_other_key:
  "event_key \<noteq> Some key \<Longrightarrow> handleStorage P key v0 event_key s = s"
  by (simp add: handleStorage_def)

text \<open>
  \<open>setValue\<close> in one equation: the state cell takes the computed value, and the browser
  takes the text or the warning.
\<close>

lemma setValue_result:
  "setValue P key a (h, w) =
     (h\<lparr>state_cell := valueToStore a h\<rparr>,
      case write_error P w key (valueToStore a h) of
        None \<Rightarrow> w\<lparr>localStorage := (localStorage w)(key \<mapsto> written_text P (valueToStore a h))\<rparr>
      | Some e \<Rightarrow> w\<lparr>console := console w @ [WriteWarning key e]\<rparr>)"
proof (cases "storage_denied w")
  case True
  then show ?thesis
    by (simp add: setValue_def setValue_try_def write_error_def warn_def Let_def)
next
  case False
  then show ?thesis
    by (cases "JSON_stringify P (valueToStore a h)")
       (simp_all add: setValue_def setValue_try_def write_error_def written_text_def setItem_def
          warn_def Let_def)
qed

text \<open>
  Claim C8. The read of the hook returns the deserialized stored text when the key is
  present and deserialization succeeds, and the initial value when the key is absent or
  deserialization fails. An exception in the read (the store is denied, or
  \<^verbatim>\<open>JSON.parse\<close> throws) is caught: it is written to the console with the key, the
  initial value is returned, and the store is as before. The platform fact used is that
  \<^verbatim>\<open>JSON.parse\<close> throws on the empty text.
\<close>

theorem readValue_outcomes:
  assumes "JSON_parse P [] = None"
  shows "(\<not> storage_denied w \<and> localStorage w key = Some text \<and> JSON_parse P text = Some v
            \<longrightarrow> readValue P key v0 w = (v, w)) \<and>
         (\<not> storage_denied w \<and> localStorage w key = None \<longrightarrow> readValue P key v0 w = (v0, w)) \<and>
         (\<not> storage_denied w \<and> localStorage w key = Some text \<and> JSON_parse P text = None
            \<longrightarrow> fst (readValue P key v0 w) = v0) \<and>
         (readValue_try P key v0 w = Inl e
            \<longrightarrow> readValue P key v0 w = (v0, w\<lparr>console := console w @ [ReadWarning key e]\<rparr>)) \<and>
         (storage_denied w \<longrightarrow> readValue_try P key v0 w = Inl SecurityError) \<and>
         (\<not> storage_denied w \<and> localStorage w key = Some text \<and> text \<noteq> [] \<and> JSON_parse P text = None
            \<longrightarrow> readValue_try P key v0 w = Inl SyntaxError)"
proof (intro conjI impI)
  assume a: "\<not> storage_denied w \<and> localStorage w key = Some text \<and> JSON_parse P text = Some v"
  with assms have "text \<noteq> []" by auto
  with a show "readValue P key v0 w = (v, w)"
    by (simp add: readValue_def readValue_try_open parse_def)
next
  assume "\<not> storage_denied w \<and> localStorage w key = None"
  then show "readValue P key v0 w = (v0, w)"
    by (simp add: readValue_def readValue_try_open)
next
  assume "\<not> storage_denied w \<and> localStorage w key = Some text \<and> JSON_parse P text = None"
  then show "fst (readValue P key v0 w) = v0"
    by (simp add: readValue_def readValue_try_open parse_def)
next
  assume "readValue_try P key v0 w = Inl e"
  then show "readValue P key v0 w = (v0, w\<lparr>console := console w @ [ReadWarning key e]\<rparr>)"
    by (simp add: readValue_def warn_def)
next
  assume "storage_denied w"
  then show "readValue_try P key v0 w = Inl SecurityError"
    by (rule readValue_try_denied)
next
  assume "\<not> storage_denied w \<and> localStorage w key = Some text \<and> text \<noteq> [] \<and> JSON_parse P text = None"
  then show "readValue_try P key v0 w = Inl SyntaxError"
    by (simp add: readValue_try_open parse_def)
qed

theorem readValue_outcomes_witness:
  "readValue (bool_storage 10) (js ''dark'') False (empty_browser\<lparr>localStorage := [(js ''dark'') \<mapsto> (js ''true'')]\<rparr>)
     = (True, empty_browser\<lparr>localStorage := [(js ''dark'') \<mapsto> (js ''true'')]\<rparr>) \<and>
   readValue (bool_storage 10) (js ''dark'') True empty_browser = (True, empty_browser) \<and>
   readValue (bool_storage 10) (js ''dark'') False (empty_browser\<lparr>localStorage := [(js ''dark'') \<mapsto> (js ''yes'')]\<rparr>)
     = (False, empty_browser\<lparr>localStorage := [(js ''dark'') \<mapsto> (js ''yes'')],
                             console := [ReadWarning (js ''dark'') SyntaxError]\<rparr>)"
proof -
  have p: "JSON_parse (bool_storage 10) [] = None" by (simp add: bool_storage_def js_def)
  let ?w1 = "empty_browser\<lparr>localStorage := [(js ''dark'') \<mapsto> (js ''true'')]\<rparr>"
  let ?w3 = "empty_browser\<lparr>localStorage := [(js ''dark'') \<mapsto> (js ''yes'')]\<rparr>"
  have 1: "\<not> storage_denied ?w1 \<and> localStorage ?w1 (js ''dark'') = Some (js ''true'') \<and>
           JSON_parse (bool_storage 10) (js ''true'') = Some True"
    by (simp add: empty_browser_def bool_storage_def js_def)
  have 2: "\<not> storage_denied empty_browser \<and> localStorage empty_browser (js ''dark'') = None"
    by (simp add: empty_browser_def)
  have 3: "\<not> storage_denied ?w3 \<and> localStorage ?w3 (js ''dark'') = Some (js ''yes'') \<and> (js ''yes'') \<noteq> [] \<and>
           JSON_parse (bool_storage 10) (js ''yes'') = None"
    by (simp add: empty_browser_def bool_storage_def js_def)
  have r1: "readValue (bool_storage 10) (js ''dark'') False ?w1 = (True, ?w1)"
    using readValue_outcomes [OF p, of ?w1 "(js ''dark'')" "(js ''true'')" True False] 1 by blast
  have r2: "readValue (bool_storage 10) (js ''dark'') True empty_browser = (True, empty_browser)"
    using readValue_outcomes [OF p, of empty_browser "(js ''dark'')" _ _ True] 2 by blast
  have t3: "readValue_try (bool_storage 10) (js ''dark'') False ?w3 = Inl SyntaxError"
    using readValue_outcomes [OF p, of ?w3 "(js ''dark'')" "(js ''yes'')" _ False] 3 by blast
  have r3: "readValue (bool_storage 10) (js ''dark'') False ?w3
      = (False, ?w3\<lparr>console := console ?w3 @ [ReadWarning (js ''dark'') SyntaxError]\<rparr>)"
    using readValue_outcomes [OF p, of ?w3 "(js ''dark'')" _ _ False SyntaxError] t3 by blast
  from r1 r2 r3 show ?thesis by (simp add: empty_browser_def)
qed

text \<open>
  Claim C7. For a setter call with a value or with a function of the previous value,
  the new value is computed and becomes the state in every outcome; when the write
  succeeds the serialized value is stored under the key; when it fails the state is
  the new value all the same, the store is unchanged and the caught exception goes to
  the console with the key. The code does all of this but for one point: the function
  is applied to \<open>storedValue\<close>, the constant of the render that made the setter, which
  a setter call does not change. A second call before the next render computes from
  the value of that render, not from the value the first call has set.
\<close>

theorem setValue_outcomes:
  "state_cell (fst (setValue P key (Value v) (h, w))) = v \<and>
   state_cell (fst (setValue P key (Update f) (h, w))) = f (storedValue h) \<and>
   storedValue (fst (setValue P key a (h, w))) = storedValue h \<and>
   snd (setValue P key a (h, w)) =
     (case write_error P w key (valueToStore a h) of
        None \<Rightarrow> w\<lparr>localStorage := (localStorage w)(key \<mapsto> written_text P (valueToStore a h))\<rparr>
      | Some e \<Rightarrow> w\<lparr>console := console w @ [WriteWarning key e]\<rparr>)"
proof -
  have 1: "state_cell (fst (setValue P key (Value v) (h, w))) = v"
    unfolding setValue_result by (simp add: valueToStore_def)
  have 2: "state_cell (fst (setValue P key (Update f) (h, w))) = f (storedValue h)"
    unfolding setValue_result by (simp add: valueToStore_def)
  have 3: "storedValue (fst (setValue P key a (h, w))) = storedValue h"
    unfolding setValue_result by simp
  have 4: "snd (setValue P key a (h, w)) =
     (case write_error P w key (valueToStore a h) of
        None \<Rightarrow> w\<lparr>localStorage := (localStorage w)(key \<mapsto> written_text P (valueToStore a h))\<rparr>
      | Some e \<Rightarrow> w\<lparr>console := console w @ [WriteWarning key e]\<rparr>)"
    unfolding setValue_result by simp
  from 1 2 3 4 show ?thesis by blast
qed

theorem setValue_outcomes_witness:
  "setValue (bool_storage 10) (js ''dark'') (Update Not)
       (setValue (bool_storage 10) (js ''dark'') (Update Not)
          (\<lparr>state_cell = False, storedValue = False\<rparr>, empty_browser))
     = (\<lparr>state_cell = True, storedValue = False\<rparr>,
        empty_browser\<lparr>localStorage := [js ''dark'' \<mapsto> js ''true'']\<rparr>) \<and>
   setValue (bool_storage 10) (js ''dark'') (Update Not)
       (render \<lparr>state_cell = True, storedValue = False\<rparr>,
        empty_browser\<lparr>localStorage := [js ''dark'' \<mapsto> js ''true'']\<rparr>)
     = (\<lparr>state_cell = False, storedValue = True\<rparr>,
        empty_browser\<lparr>localStorage := [js ''dark'' \<mapsto> js ''false'']\<rparr>) \<and>
   setValue (bool_storage 4) (js ''dark'') (Value False)
       (\<lparr>state_cell = True, storedValue = True\<rparr>, empty_browser)
     = (\<lparr>state_cell = False, storedValue = True\<rparr>,
        empty_browser\<lparr>console := [WriteWarning (js ''dark'') QuotaExceededError]\<rparr>)"
proof -
  let ?P = "bool_storage 10"
  let ?k = "js ''dark''"
  let ?h0 = "\<lparr>state_cell = False, storedValue = False\<rparr>"
  let ?h1 = "\<lparr>state_cell = True, storedValue = False\<rparr>"
  let ?w1 = "empty_browser\<lparr>localStorage := [?k \<mapsto> js ''true'']\<rparr>"
  have e_true: "write_error ?P w ?k True = (if storage_denied w then Some SecurityError else None)" for w
    by (simp add: write_error_def bool_storage_def js_def)
  have e_false: "write_error ?P w ?k False = (if storage_denied w then Some SecurityError else None)" for w
    by (simp add: write_error_def bool_storage_def js_def)
  have t_true: "written_text ?P True = js ''true''"
    by (simp add: written_text_def bool_storage_def)
  have t_false: "written_text ?P False = js ''false''"
    by (simp add: written_text_def bool_storage_def)
  have first: "setValue ?P ?k (Update Not) (?h0, empty_browser) = (?h1, ?w1)"
    using setValue_outcomes [of ?P ?k _ ?h0 empty_browser Not "Update Not"]
    by (cases "setValue ?P ?k (Update Not) (?h0, empty_browser)")
       (simp add: valueToStore_def e_true t_true empty_browser_def)
  have second: "setValue ?P ?k (Update Not) (?h1, ?w1) = (?h1, ?w1)"
    using setValue_outcomes [of ?P ?k _ ?h1 ?w1 Not "Update Not"]
    by (cases "setValue ?P ?k (Update Not) (?h1, ?w1)")
       (simp add: valueToStore_def e_true t_true empty_browser_def)
  have rendered: "setValue ?P ?k (Update Not) (render ?h1, ?w1)
      = (\<lparr>state_cell = False, storedValue = True\<rparr>,
         empty_browser\<lparr>localStorage := [?k \<mapsto> js ''false'']\<rparr>)"
    using setValue_outcomes [of ?P ?k _ "render ?h1" ?w1 Not "Update Not"]
    by (cases "setValue ?P ?k (Update Not) (render ?h1, ?w1)")
       (simp add: valueToStore_def render_def e_false t_false empty_browser_def)
  have full: "setValue (bool_storage 4) ?k (Value False)
       (\<lparr>state_cell = True, storedValue = True\<rparr>, empty_browser)
     = (\<lparr>state_cell = False, storedValue = True\<rparr>,
        empty_browser\<lparr>console := [WriteWarning ?k QuotaExceededError]\<rparr>)"
    using setValue_outcomes [of "bool_storage 4" ?k False
        "\<lparr>state_cell = True, storedValue = True\<rparr>" empty_browser _ "Value False"]
    by (cases "setValue (bool_storage 4) ?k (Value False)
                 (\<lparr>state_cell = True, storedValue = True\<rparr>, empty_browser)")
       (simp add: valueToStore_def write_error_def bool_storage_def js_def empty_browser_def)
  show ?thesis unfolding first using second rendered full by simp
qed

subsection \<open>The JSON of the example values\<close>

lemma parse_nat_decimal: "parse_nat (decimal n) = Some n"
proof -
  have "\<not> (1 < length (decimal n) \<and> hd (decimal n) = 0x30)"
  proof
    assume a: "1 < length (decimal n) \<and> hd (decimal n) = 0x30"
    then have "10 \<le> n" using decimal_one_digit by blast
    then have "hd (decimal n) \<noteq> 0x30" by (intro decimal_no_leading_zero) simp
    with a show False by simp
  qed
  then show ?thesis
    unfolding parse_nat_def
    by (simp add: decimal_nonempty decimal_digits decimal_value del: decimal.simps)
qed

lemma decimal_starts_with_digit: "is_digit (hd (decimal n))"
proof (cases "decimal n")
  case Nil
  with decimal_nonempty [of n] show ?thesis by simp
next
  case (Cons c cs)
  with decimal_digits [of n] show ?thesis by simp
qed

lemma minus_is_no_digit: "\<not> is_digit 0x2D"
  by (simp add: is_digit_def js_def)

lemma parse_int_written: "parse_int ((if n < 0 then [0x2D] else []) @ decimal (nat \<bar>n\<bar>)) = Some n"
proof (cases "n < 0")
  case True
  then show ?thesis by (simp add: parse_int_def parse_nat_decimal del: decimal.simps)
next
  case False
  define m where "m = nat \<bar>n\<bar>"
  obtain c cs where d: "decimal m = c # cs"
    using decimal_nonempty [of m] by (cases "decimal m") auto
  have "is_digit c" using decimal_starts_with_digit [of m] unfolding d by simp
  then have c: "c \<noteq> 0x2D" using minus_is_no_digit by auto
  have "parse_nat (c # cs) = Some m" using parse_nat_decimal [of m] unfolding d .
  with c have "parse_int (c # cs) = Some (int m)" by (simp add: parse_int_def)
  moreover have "int m = n" using False by (simp add: m_def)
  ultimately show ?thesis using False unfolding m_def [symmetric] d by simp
qed

lemma parse_int_names:
  "parse_int (js ''null'') = None" "parse_int (js ''true'') = None" "parse_int (js ''false'') = None"
  "parse_int [] = None"
  by (simp_all add: parse_int_def parse_nat_def is_digit_def js_def)

text \<open>
  Which of the example values survive serialization: all but NaN and the infinities,
  which are written as \<open>null\<close> and read back as \<open>JNull\<close>.
\<close>

lemma json_round_trips:
  "round_trips json_storage v \<longleftrightarrow> v \<noteq> JNaN \<and> v \<noteq> JInfinity \<and> v \<noteq> JNegInfinity"
proof (cases v)
  case (JInt n)
  then show ?thesis
    unfolding round_trips_def json_storage_def json_stringify_def json_parse_def
    by (simp add: parse_int_written del: decimal.simps)
next
  case (JBool b)
  then show ?thesis
    by (cases b) (simp_all add: round_trips_def json_storage_def json_stringify_def json_parse_def
          parse_int_names, simp_all add: js_def)
qed (simp_all add: round_trips_def json_storage_def json_stringify_def json_parse_def
       parse_int_names)

lemma json_parse_empty: "JSON_parse json_storage [] = None"
  by (simp add: json_storage_def json_parse_def parse_int_names js_def)

lemma json_parse_undefined: "JSON_parse json_storage (js ''undefined'') = None"
proof -
  have "parse_int (js ''undefined'') = None"
    by (simp add: parse_int_def parse_nat_def is_digit_def js_def)
  then show ?thesis
    by (simp add: json_storage_def json_parse_def) (simp add: js_def)
qed

subsection \<open>Write, then read in a fresh hook\<close>

text \<open>
  Claim C1, as stated, for every value of a serializable type. NaN is a number, and
  \<^verbatim>\<open>JSON.stringify(NaN)\<close> is the text \<open>null\<close>: after the setter is called with NaN the
  write has succeeded, the in-memory copy is NaN, the store holds \<open>null\<close>, and a fresh
  hook on the key reads \<open>JNull\<close>, which is neither NaN nor the initial value.
\<close>

theorem set_NaN_counterexample:
  "state_cell (fst (setValue json_storage (js ''k'') (Value JNaN)
                      (\<lparr>state_cell = JInt 0, storedValue = JInt 0\<rparr>, empty_browser))) = JNaN \<and>
   snd (setValue json_storage (js ''k'') (Value JNaN)
          (\<lparr>state_cell = JInt 0, storedValue = JInt 0\<rparr>, empty_browser))
     = empty_browser\<lparr>localStorage := [js ''k'' \<mapsto> js ''null'']\<rparr> \<and>
   useLocalStorage json_storage (js ''k'') (JInt 0)
       (empty_browser\<lparr>localStorage := [js ''k'' \<mapsto> js ''null'']\<rparr>)
     = (\<lparr>state_cell = JNull, storedValue = JNull\<rparr>,
        empty_browser\<lparr>localStorage := [js ''k'' \<mapsto> js ''null'']\<rparr>)"
proof -
  have w: "setValue json_storage (js ''k'') (Value JNaN)
          (\<lparr>state_cell = JInt 0, storedValue = JInt 0\<rparr>, empty_browser)
     = (\<lparr>state_cell = JNaN, storedValue = JInt 0\<rparr>,
        empty_browser\<lparr>localStorage := [js ''k'' \<mapsto> js ''null'']\<rparr>)"
    by (simp add: setValue_result valueToStore_def write_error_def written_text_def
          json_storage_def json_stringify_def empty_browser_def)
  have p: "json_parse (js ''null'') = Some JNull"
    by (simp add: json_parse_def parse_int_names)
  have n: "js ''null'' \<noteq> []" by (simp add: js_def)
  have r: "useLocalStorage json_storage (js ''k'') (JInt 0)
       (empty_browser\<lparr>localStorage := [js ''k'' \<mapsto> js ''null'']\<rparr>)
     = (\<lparr>state_cell = JNull, storedValue = JNull\<rparr>,
        empty_browser\<lparr>localStorage := [js ''k'' \<mapsto> js ''null'']\<rparr>)"
    using p n
    by (simp add: useLocalStorage_def readValue_def readValue_try_def getItem_def parse_def
          json_storage_def empty_browser_def)
  from r show ?thesis unfolding w by simp
qed

text \<open>
  Claim C1, amended. Take a setter call with the value \<open>v\<close>, or with a function that
  gives \<open>v\<close> for the value of the current render, whose write succeeds. Then the
  in-memory copy is \<open>v\<close>, the text stored under the key deserializes to \<open>v\<close>, and a
  fresh hook instance on the same key, started on the store as the setter left it, reads
  \<open>v\<close> for every initial value and reports nothing, if and only if \<open>v\<close> survives
  serialization: \<^verbatim>\<open>JSON.stringify\<close> gives a text for it and \<^verbatim>\<open>JSON.parse\<close> of that text
  gives \<open>v\<close> back. The platform facts used are that \<^verbatim>\<open>JSON.parse\<close> throws on the empty
  text and on the text \<open>undefined\<close>.
\<close>

theorem set_then_fresh_read:
  assumes "JSON_parse P [] = None"
    and "JSON_parse P (js ''undefined'') = None"
    and "write_error P w key v = None"
  shows "(reads_back P key (Value v) (h, w) v0 v \<longleftrightarrow> round_trips P v) \<and>
         (f (storedValue h) = v \<longrightarrow>
            (reads_back P key (Update f) (h, w) v0 v \<longleftrightarrow> round_trips P v))"
proof -
  let ?s = "written_text P v"
  let ?w = "w\<lparr>localStorage := (localStorage w)(key \<mapsto> ?s)\<rparr>"
  from assms(3) have open_store: "\<not> storage_denied w"
    by (auto simp: write_error_def split: if_splits)
  have survives: "round_trips P v \<longleftrightarrow> JSON_parse P ?s = Some v"
    using assms(2) by (simp add: round_trips_def written_text_def split: stringified.splits)
  have written: "setValue P key a (h, w) = (h\<lparr>state_cell := v\<rparr>, ?w)"
    if "valueToStore a h = v" for a
    unfolding setValue_result that using assms(3) by simp
  have fresh: "useLocalStorage P key v0 ?w = (\<lparr>state_cell = v, storedValue = v\<rparr>, ?w)"
    if p: "JSON_parse P ?s = Some v"
  proof -
    from p assms(1) have "?s \<noteq> []" by auto
    with open_store p show ?thesis
      by (simp add: useLocalStorage_def readValue_def readValue_try_open parse_def)
  qed
  have any: "reads_back P key a (h, w) v0 v \<longleftrightarrow> round_trips P v"
    if a: "valueToStore a h = v" for a
  proof
    assume "reads_back P key a (h, w) v0 v"
    then have "JSON_parse P ?s = Some v"
      unfolding reads_back_def written [OF a] by simp
    with survives show "round_trips P v" by simp
  next
    assume "round_trips P v"
    with survives have p: "JSON_parse P ?s = Some v" by simp
    show "reads_back P key a (h, w) v0 v"
      unfolding reads_back_def written [OF a] using p fresh [OF p] by simp
  qed
  have 1: "reads_back P key (Value v) (h, w) v0 v \<longleftrightarrow> round_trips P v"
    by (rule any) (simp add: valueToStore_def)
  have 2: "reads_back P key (Update f) (h, w) v0 v \<longleftrightarrow> round_trips P v"
    if "f (storedValue h) = v"
    by (rule any) (simp add: valueToStore_def that)
  from 1 2 show ?thesis by blast
qed

theorem set_then_fresh_read_witness:
  "setValue json_storage (js ''k'') (Value (JInt (- 42)))
       (\<lparr>state_cell = JNull, storedValue = JNull\<rparr>, empty_browser)
     = (\<lparr>state_cell = JInt (- 42), storedValue = JNull\<rparr>,
        empty_browser\<lparr>localStorage := [js ''k'' \<mapsto> js ''-42'']\<rparr>) \<and>
   useLocalStorage json_storage (js ''k'') JNull
       (empty_browser\<lparr>localStorage := [js ''k'' \<mapsto> js ''-42'']\<rparr>)
     = (\<lparr>state_cell = JInt (- 42), storedValue = JInt (- 42)\<rparr>,
        empty_browser\<lparr>localStorage := [js ''k'' \<mapsto> js ''-42'']\<rparr>) \<and>
   reads_back json_storage (js ''k'') (Update (\<lambda>v. JBool (v = JNull)))
     (\<lparr>state_cell = JInt 7, storedValue = JNull\<rparr>, empty_browser) (JInt 0) (JBool True) \<and>
   \<not> reads_back json_storage (js ''k'') (Value JNaN)
       (\<lparr>state_cell = JInt 0, storedValue = JInt 0\<rparr>, empty_browser) (JInt 0) JNaN"
proof -
  let ?k = "js ''k''"
  let ?h = "\<lparr>state_cell = JNull, storedValue = JNull\<rparr>"
  let ?w = "empty_browser\<lparr>localStorage := [?k \<mapsto> js ''-42'']\<rparr>"
  have e: "write_error json_storage empty_browser ?k v = None" for v
    by (simp add: write_error_def json_storage_def empty_browser_def)
  have rt: "round_trips json_storage (JInt (- 42))" "round_trips json_storage (JBool True)"
    "\<not> round_trips json_storage JNaN"
    by (simp_all add: json_round_trips)
  have wt: "written_text json_storage (JInt (- 42)) = js ''-42''"
    by (simp add: written_text_def json_storage_def json_stringify_def digit_char_def js_def)
  have s: "setValue json_storage ?k (Value (JInt (- 42))) (?h, empty_browser)
      = (\<lparr>state_cell = JInt (- 42), storedValue = JNull\<rparr>, ?w)"
    by (simp add: setValue_result valueToStore_def e wt) (simp add: empty_browser_def)
  have "reads_back json_storage ?k (Value (JInt (- 42))) (?h, empty_browser) JNull (JInt (- 42))"
    using set_then_fresh_read [OF json_parse_empty json_parse_undefined e] rt(1) by blast
  then have r: "useLocalStorage json_storage ?k JNull ?w
      = (\<lparr>state_cell = JInt (- 42), storedValue = JInt (- 42)\<rparr>, ?w)"
    unfolding reads_back_def s by simp
  have u: "reads_back json_storage ?k (Update (\<lambda>v. JBool (v = JNull)))
     (\<lparr>state_cell = JInt 7, storedValue = JNull\<rparr>, empty_browser) (JInt 0) (JBool True)"
    using set_then_fresh_read [OF json_parse_empty json_parse_undefined e,
        where f = "\<lambda>v. JBool (v = JNull)" and h = "\<lparr>state_cell = JInt 7, storedValue = JNull\<rparr>"
          and v = "JBool True"] rt(2)
    by simp
  have n: "\<not> reads_back json_storage ?k (Value JNaN)
       (\<lparr>state_cell = JInt 0, storedValue = JInt 0\<rparr>, empty_browser) (JInt 0) JNaN"
    using set_then_fresh_read [OF json_parse_empty json_parse_undefined e] rt(3) by blast
  from s r u n show ?thesis by simp
qed

text \<open>The texts \<open>setValue\<close> can leave under a key: what was there, or what it serialized.\<close>

lemma setValue_stored_text:
  "localStorage (snd (setValue P key a (h, w))) k = localStorage w k \<or>
   localStorage (snd (setValue P key a (h, w))) k = Some (js ''undefined'') \<or>
   (\<exists>v. JSON_stringify P v
          = StringifyText (the (localStorage (snd (setValue P key a (h, w))) k)))"
proof (cases "write_error P w key (valueToStore a h)")
  case (Some e)
  then show ?thesis unfolding setValue_result by simp
next
  case None
  show ?thesis
    unfolding setValue_result None
    by (cases "JSON_stringify P (valueToStore a h)")
       (auto simp: written_text_def intro: exI [of _ "valueToStore a h"])
qed

text \<open>
  Claim C10. When the text stored under the key is the empty string, the read gives
  the initial value without calling \<^verbatim>\<open>JSON.parse\<close>: the result is the same for every
  parser, also for one that would accept the empty text, and it is the result of the
  read on the same browser with the key removed. The hook itself never stores the
  empty text, as long as \<^verbatim>\<open>JSON.stringify\<close> never returns it.
\<close>

theorem readValue_empty_text:
  assumes "localStorage w key = Some []"
  shows "readValue_try P key v0 w
           = readValue_try P key v0 (w\<lparr>localStorage := (localStorage w)(key := None)\<rparr>) \<and>
         fst (readValue P key v0 w) = v0 \<and>
         fst (readValue P key v0 (w\<lparr>localStorage := (localStorage w)(key := None)\<rparr>)) = v0 \<and>
         console (snd (readValue P key v0 w))
           = console (snd (readValue P key v0 (w\<lparr>localStorage := (localStorage w)(key := None)\<rparr>))) \<and>
         (\<not> storage_denied w \<longrightarrow> readValue P key v0 w = (v0, w)) \<and>
         ((\<forall>v. JSON_stringify P v \<noteq> StringifyText []) \<and> localStorage w' k \<noteq> Some []
            \<longrightarrow> localStorage (snd (setValue P k' a (h, w'))) k \<noteq> Some [])"
proof -
  let ?w = "w\<lparr>localStorage := (localStorage w)(key := None)\<rparr>"
  have t: "readValue_try P key v0 w = readValue_try P key v0 ?w"
    using assms by (simp add: readValue_try_def getItem_def)
  have v: "fst (readValue P key v0 w) = v0"
    using assms by (simp add: readValue_def readValue_try_def getItem_def)
  have v': "fst (readValue P key v0 ?w) = v0"
    by (simp add: readValue_def readValue_try_def getItem_def)
  have c: "console (snd (readValue P key v0 w)) = console (snd (readValue P key v0 ?w))"
    unfolding readValue_def t [symmetric] by (simp add: warn_def split: sum.splits)
  have q: "\<not> storage_denied w \<Longrightarrow> readValue P key v0 w = (v0, w)"
    using assms by (simp add: readValue_def readValue_try_open)
  have w: "(\<forall>v. JSON_stringify P v \<noteq> StringifyText []) \<and> localStorage w' k \<noteq> Some []
            \<Longrightarrow> localStorage (snd (setValue P k' a (h, w'))) k \<noteq> Some []"
  proof
    assume a: "(\<forall>v. JSON_stringify P v \<noteq> StringifyText []) \<and> localStorage w' k \<noteq> Some []"
    assume e: "localStorage (snd (setValue P k' a (h, w'))) k = Some []"
    from setValue_stored_text [of P k' a h w' k] e a show False by (auto simp: js_def)
  qed
  from t v v' c q w show ?thesis by blast
qed

theorem readValue_empty_text_witness:
  "readValue ((bool_storage 10)\<lparr>JSON_parse := (\<lambda>s. Some True)\<rparr>) (js ''dark'') False
       (empty_browser\<lparr>localStorage := [(js ''dark'') \<mapsto> []]\<rparr>)
     = (False, empty_browser\<lparr>localStorage := [(js ''dark'') \<mapsto> []]\<rparr>) \<and>
   fst (readValue ((bool_storage 10)\<lparr>JSON_parse := (\<lambda>s. Some True)\<rparr>) (js ''dark'') False empty_browser)
     = False"
proof -
  let ?P = "(bool_storage 10)\<lparr>JSON_parse := (\<lambda>s. Some True)\<rparr>"
  let ?w = "empty_browser\<lparr>localStorage := [(js ''dark'') \<mapsto> []]\<rparr>"
  have a: "localStorage ?w (js ''dark'') = Some []" by simp
  have d: "\<not> storage_denied ?w" by (simp add: empty_browser_def)
  have r: "?w\<lparr>localStorage := (localStorage ?w)((js ''dark'') := None)\<rparr> = empty_browser"
    by (simp add: empty_browser_def)
  from readValue_empty_text [OF a, of ?P False] d
  have "readValue ?P (js ''dark'') False ?w = (False, ?w) \<and>
        fst (readValue ?P (js ''dark'') False (?w\<lparr>localStorage := (localStorage ?w)((js ''dark'') := None)\<rparr>)) = False"
    by blast
  then show ?thesis unfolding r .
qed

end
